theory Spec2Isabelle
  imports Complex_Main
begin

section \<open>Python values, exceptions and small string helpers\<close>

text \<open>
  The scripts of the repository are Python programs over dynamically typed values: parsed
  JSON and the cells that the spreadsheet client hands back. The scalar values are the
  type \<open>atom\<close> (they are the hashable ones, and the only ones a cell holds); parsed
  JSON adds lists and objects. A Python \<open>float\<close> is read as a real number; the
  scripts only negate, compare and store floats, and these are exact on floats.
\<close>

datatype atom =
    ANone
  | ABool bool
  | AInt int
  | AFloat real
  | AStr string

datatype pyval =
    Atom atom
  | PList "pyval list"
  | PDict "(string \<times> pyval) list"

text \<open>
  The exceptions the scripts can meet. \<open>APIError\<close> is \<open>gspread.exceptions.APIError\<close>
  and carries the HTTP status of the answer (429 is the status of a rate limit) and the
  text that \<open>str(e)\<close> gives. \<open>TimestampOutOfRange\<close> is what
  \<open>datetime.utcfromtimestamp\<close> raises for a time it cannot turn into a date:
  \<open>ValueError\<close>, \<open>OverflowError\<close> or \<open>OSError\<close>, by the size of the number and
  the platform. \<open>OtherException\<close> stands for any other subclass of \<open>Exception\<close>
  raised by a library.
\<close>

datatype exn =
    APIError int string
  | IndexError
  | KeyError string
  | TypeError
  | ValueError
  | TimestampOutOfRange
  | UnboundLocalError
  | OtherException string

text \<open>\<open>sub in s\<close> on Python strings: \<open>sub\<close> occurs in \<open>s\<close> as a contiguous piece.\<close>

fun str_contains :: "string \<Rightarrow> string \<Rightarrow> bool" where
  "str_contains sub [] = (sub = [])"
| "str_contains sub (c # cs) = (take (length sub) (c # cs) = sub \<or> str_contains sub cs)"

text \<open>\<open>str.strip()\<close>: the characters for which \<open>str.isspace\<close> holds, below code 256.\<close>

definition is_space :: "char \<Rightarrow> bool" where
  "is_space c = (c \<in> set [CHR 0x09, CHR 0x0A, CHR 0x0B, CHR 0x0C, CHR 0x0D, CHR 0x1C,
                            CHR 0x1D, CHR 0x1E, CHR 0x1F, CHR 0x20, CHR 0x85, CHR 0xA0])"

definition py_strip :: "string \<Rightarrow> string" where
  "py_strip s = rev (dropWhile is_space (rev (dropWhile is_space s)))"

text \<open>The regular expression class \<open>\d\<close>, on ASCII.\<close>

definition is_digit :: "char \<Rightarrow> bool" where
  "is_digit c = (c \<in> set ''0123456789'')"

text \<open>\<open>str(n)\<close> for an integer: decimal digits, a minus sign for a negative one.\<close>

definition digit_char :: "nat \<Rightarrow> char" where
  "digit_char d = ''0123456789'' ! d"

fun str_nat :: "nat \<Rightarrow> string" where
  "str_nat n = (if n < 10 then [digit_char n] else str_nat (n div 10) @ [digit_char (n mod 10)])"

declare str_nat.simps [simp del]

definition str_int :: "int \<Rightarrow> string" where
  "str_int i = (if i < 0 then CHR ''-'' # str_nat (nat (- i)) else str_nat (nat i))"

text \<open>
  \<open>str(v)\<close> and \<open>f"{v}"\<close> for a scalar. The text of a float is the shortest decimal
  that reads back to the same double; it is not computed here but taken as the
  parameter \<open>frepr\<close>.
\<close>

fun py_str :: "(real \<Rightarrow> string) \<Rightarrow> atom \<Rightarrow> string" where
  "py_str frepr ANone = ''None''"
| "py_str frepr (ABool b) = (if b then ''True'' else ''False'')"
| "py_str frepr (AInt i) = str_int i"
| "py_str frepr (AFloat r) = frepr r"
| "py_str frepr (AStr s) = s"

text \<open>Truth value of a scalar, as \<open>if v\<close> and \<open>not v\<close> read it.\<close>

fun py_truthy :: "atom \<Rightarrow> bool" where
  "py_truthy ANone = False"
| "py_truthy (ABool b) = b"
| "py_truthy (AInt i) = (i \<noteq> 0)"
| "py_truthy (AFloat r) = (r \<noteq> 0)"
| "py_truthy (AStr s) = (s \<noteq> [])"

text \<open>
  \<open>==\<close> on scalars, which is what membership in a set or a list uses: numbers
  (booleans among them) are equal when their values are, everything else when it is the
  same value of the same type.
\<close>

fun py_num :: "atom \<Rightarrow> real option" where
  "py_num (ABool b) = Some (if b then 1 else 0)"
| "py_num (AInt i) = Some (of_int i)"
| "py_num (AFloat r) = Some r"
| "py_num a = None"

definition py_eq :: "atom \<Rightarrow> atom \<Rightarrow> bool" where
  "py_eq a b =
     (case (py_num a, py_num b) of
        (Some x, Some y) \<Rightarrow> x = y
      | (None, None) \<Rightarrow> a = b
      | _ \<Rightarrow> False)"

definition py_in :: "atom \<Rightarrow> atom list \<Rightarrow> bool" where
  "py_in a xs = list_ex (py_eq a) xs"

text \<open>\<open>d[key]\<close> on a parsed JSON value: only an object can be indexed by a text.\<close>

fun subscript :: "pyval \<Rightarrow> string \<Rightarrow> exn + pyval" where
  "subscript (PDict kvs) k = (case map_of kvs k of None \<Rightarrow> Inl (KeyError k) | Some v \<Rightarrow> Inr v)"
| "subscript v k = Inl TypeError"


section \<open>confessor.py: appending comment rows\<close>

text \<open>
  The remote worksheet as the comment script sees it: the rows appended so far (each as
  the list of values that was sent), the answers the service will give to the coming
  \<open>append_rows\<close> calls (one is consumed per call; when none is left the call succeeds),
  and the log of the \<open>time.sleep\<close> calls, in seconds.
\<close>

datatype api_outcome = ApiOk | ApiRaise exn

record world =
  sheet_rows :: "pyval list list"
  responses :: "api_outcome list"
  sleeps :: "nat list"

definition append_rows :: "world \<Rightarrow> pyval list list \<Rightarrow> exn option \<times> world" where
  "append_rows w rs =
     (case responses w of
        [] \<Rightarrow> (None, w\<lparr>sheet_rows := sheet_rows w @ rs\<rparr>)
      | ApiOk # q \<Rightarrow> (None, w\<lparr>sheet_rows := sheet_rows w @ rs, responses := q\<rparr>)
      | ApiRaise e # q \<Rightarrow> (Some e, w\<lparr>responses := q\<rparr>))"

text \<open>
  \<open>retry_append_with_backoff\<close>: the body of \<open>for i in range(retries)\<close> is one equation
  of \<open>retry_loop\<close>, the statements after the loop are its base case. Only an
  \<open>APIError\<close> is caught; one whose text holds \<open>429\<close>, whatever its status, is
  answered by a sleep of \<open>2**i\<close> seconds and the next round, any other is raised
  again.
\<close>

fun retry_loop :: "world \<Rightarrow> pyval list list \<Rightarrow> nat list \<Rightarrow> (exn + bool) \<times> world" where
  "retry_loop w rows [] = (Inr False, w)"
| "retry_loop w rows (i # rest) =
     (case append_rows w rows of
        (None, w') \<Rightarrow> (Inr True, w')
      | (Some (APIError code msg), w') \<Rightarrow>
          (if str_contains ''429'' msg
           then retry_loop (w'\<lparr>sleeps := sleeps w' @ [2 ^ i]\<rparr>) rows rest
           else (Inl (APIError code msg), w'))
      | (Some e, w') \<Rightarrow> (Inl e, w'))"

definition retry_append_with_backoff ::
  "world \<Rightarrow> pyval list list \<Rightarrow> int \<Rightarrow> (exn + bool) \<times> world" where
  "retry_append_with_backoff w rows retries = retry_loop w rows [0..<nat retries]"

definition default_retries :: int where
  "default_retries = 3"

definition batch_append_to_sheet :: "world \<Rightarrow> pyval list list \<Rightarrow> exn option \<times> world" where
  "batch_append_to_sheet w rows =
     (if rows \<noteq> []
      then (case retry_append_with_backoff w rows default_retries of
              (Inl e, w') \<Rightarrow> (Some e, w')
            | (Inr ok, w') \<Rightarrow> (None, w'))
      else (None, w))"

text \<open>
  \<open>convert_to_utc\<close>: \<open>datetime.utcfromtimestamp(t).strftime("%Y-%m-%d %H:%M:%S")\<close>.
  The day number since 1970-01-01 is turned into a proleptic Gregorian date; a timestamp
  outside the years 1 to 9999 raises \<open>TimestampOutOfRange\<close>. \<open>%Y\<close> is the plain decimal year, as the C
  library of Linux prints it. A float is rounded to microseconds, half to even, before
  the seconds are taken; a value that is no number raises \<open>TypeError\<close>.
\<close>

definition civil_from_days :: "int \<Rightarrow> int \<times> int \<times> int" where
  "civil_from_days days =
     (let z = days + 719468;
          era = z div 146097;
          doe = z mod 146097;
          yoe = (doe - doe div 1460 + doe div 36524 - doe div 146096) div 365;
          doy = doe - (365 * yoe + yoe div 4 - yoe div 100);
          mp = (5 * doy + 2) div 153;
          d = doy - (153 * mp + 2) div 5 + 1;
          m = (if mp < 10 then mp + 3 else mp - 9);
          y = yoe + era * 400 + (if m \<le> 2 then 1 else 0)
      in (y, m, d))"

definition pad2 :: "int \<Rightarrow> string" where
  "pad2 n = (if n < 10 then CHR ''0'' # str_int n else str_int n)"

definition strftime_utc :: "int \<Rightarrow> string" where
  "strftime_utc t =
     (let (y, m, d) = civil_from_days (t div 86400);
          s = t mod 86400
      in str_int y @ ''-'' @ pad2 m @ ''-'' @ pad2 d @ '' '' @
         pad2 (s div 3600) @ '':'' @ pad2 (s mod 3600 div 60) @ '':'' @ pad2 (s mod 60))"

definition utcfromtimestamp :: "int \<Rightarrow> exn + string" where
  "utcfromtimestamp t =
     (if - 62135596800 \<le> t \<and> t \<le> 253402300799 then Inr (strftime_utc t)
      else Inl TimestampOutOfRange)"

definition round_half_even :: "real \<Rightarrow> int" where
  "round_half_even x =
     (let f = \<lfloor>x\<rfloor>; d = x - of_int f
      in if d < 1 / 2 then f else if 1 / 2 < d then f + 1 else if even f then f else f + 1)"

fun convert_to_utc :: "pyval \<Rightarrow> exn + string" where
  "convert_to_utc (Atom (AInt t)) = utcfromtimestamp t"
| "convert_to_utc (Atom (ABool b)) = utcfromtimestamp (if b then 1 else 0)"
| "convert_to_utc (Atom (AFloat r)) = utcfromtimestamp (round_half_even (r * 1000000) div 1000000)"
| "convert_to_utc v = Inl TypeError"

text \<open>
  \<open>extract_post_id\<close>: \<open>re.search(r"uwaterlooconfessions-(\d+)-", filename)\<close>. At one
  position the pattern matches when the literal is followed by a non-empty run of digits
  and a hyphen; the greedy \<open>\d+\<close> takes the whole run, and a shorter run would be
  followed by a digit, never by the hyphen. \<open>re.search\<close> takes the leftmost position
  that matches. \<open>None\<close> is Python's \<open>None\<close>.
\<close>

fun strip_prefix :: "string \<Rightarrow> string \<Rightarrow> string option" where
  "strip_prefix [] s = Some s"
| "strip_prefix (p # ps) [] = None"
| "strip_prefix (p # ps) (c # cs) = (if p = c then strip_prefix ps cs else None)"

definition digits_then :: "string \<Rightarrow> string \<Rightarrow> (string \<times> string) option" where
  "digits_then lit s =
     (let ds = takeWhile is_digit s
      in if ds = [] then None
         else (case strip_prefix lit (dropWhile is_digit s) of
                 None \<Rightarrow> None
               | Some r \<Rightarrow> Some (ds, r)))"

definition post_id_match_at :: "string \<Rightarrow> string option" where
  "post_id_match_at s =
     (case strip_prefix ''uwaterlooconfessions-'' s of
        None \<Rightarrow> None
      | Some r \<Rightarrow> map_option fst (digits_then ''-'' r))"

fun re_search :: "(string \<Rightarrow> 'a option) \<Rightarrow> string \<Rightarrow> 'a option" where
  "re_search match_at [] = match_at []"
| "re_search match_at (c # cs) =
     (case match_at (c # cs) of Some g \<Rightarrow> Some g | None \<Rightarrow> re_search match_at cs)"

definition extract_post_id :: "string \<Rightarrow> string option" where
  "extract_post_id filename = re_search post_id_match_at filename"

text \<open>\<open>os.path.basename\<close> and \<open>os.path.join\<close> on POSIX paths.\<close>

definition basename :: "string \<Rightarrow> string" where
  "basename p = rev (takeWhile (\<lambda>c. c \<noteq> CHR ''/'') (rev p))"

definition path_join :: "string \<Rightarrow> string \<Rightarrow> string" where
  "path_join d f =
     (if f \<noteq> [] \<and> hd f = CHR ''/'' then f
      else if d = [] \<or> last d = CHR ''/'' then d @ f
      else d @ ''/'' @ f)"

text \<open>
  The loop of \<open>process_comment_file\<close> over the comments of one file. \<open>new_entries\<close>
  and \<open>existing_comment_ids\<close> are the two variables it updates; the set is kept as a
  list, only membership is asked of it. A comment id that is a list or an object cannot
  be hashed, so the membership test raises \<open>TypeError\<close>. The result is the
  exception that ended the loop, if any, and the two variables as they are then: the ids
  added before an exception stay in the set.
\<close>

fun comment_loop ::
  "(real \<Rightarrow> string) \<Rightarrow> string \<Rightarrow> pyval list \<Rightarrow> pyval list list \<Rightarrow> atom list
     \<Rightarrow> exn option \<times> pyval list list \<times> atom list" where
  "comment_loop frepr post_id [] new_entries existing_comment_ids =
     (None, new_entries, existing_comment_ids)"
| "comment_loop frepr post_id (comment # rest) new_entries existing_comment_ids =
     (case subscript comment ''id'' of
        Inl e \<Rightarrow> (Some e, new_entries, existing_comment_ids)
      | Inr (PList _) \<Rightarrow> (Some TypeError, new_entries, existing_comment_ids)
      | Inr (PDict _) \<Rightarrow> (Some TypeError, new_entries, existing_comment_ids)
      | Inr (Atom comment_id) \<Rightarrow>
          if py_in comment_id existing_comment_ids
          then comment_loop frepr post_id rest new_entries existing_comment_ids
          else
            (case subscript comment ''created_at'' of
               Inl e \<Rightarrow> (Some e, new_entries, existing_comment_ids)
             | Inr created_at \<Rightarrow>
            (case convert_to_utc created_at of
               Inl e \<Rightarrow> (Some e, new_entries, existing_comment_ids)
             | Inr post_timestamp \<Rightarrow>
            (case subscript comment ''owner'' of
               Inl e \<Rightarrow> (Some e, new_entries, existing_comment_ids)
             | Inr owner \<Rightarrow>
            (case subscript owner ''username'' of
               Inl e \<Rightarrow> (Some e, new_entries, existing_comment_ids)
             | Inr commenter \<Rightarrow>
            (case subscript comment ''likes_count'' of
               Inl e \<Rightarrow> (Some e, new_entries, existing_comment_ids)
             | Inr like_count \<Rightarrow>
            (case subscript comment ''text'' of
               Inl e \<Rightarrow> (Some e, new_entries, existing_comment_ids)
             | Inr text \<Rightarrow>
                 comment_loop frepr post_id rest
                   (new_entries @
                      [[Atom (AStr post_timestamp),
                        Atom (AStr (CHR 0x27 # post_id)),
                        Atom (AStr (CHR 0x27 # py_str frepr comment_id)),
                        commenter, like_count, text]])
                   (existing_comment_ids @ [comment_id]))))))))"

text \<open>
  \<open>process_comment_file\<close>: \<open>comments\<close> is what \<open>json.load\<close> gave for the file, a
  JSON array. The result is the exception that left the function, if any, the remote
  state and the set of known ids as the call leaves them.
\<close>

definition process_comment_file ::
  "(real \<Rightarrow> string) \<Rightarrow> string \<Rightarrow> pyval list \<Rightarrow> world \<Rightarrow> atom list
     \<Rightarrow> exn option \<times> world \<times> atom list" where
  "process_comment_file frepr file_path comments sheet existing_comment_ids =
     (case extract_post_id (basename file_path) of
        None \<Rightarrow> (None, sheet, existing_comment_ids)
      | Some post_id \<Rightarrow>
          (case comment_loop frepr post_id comments [] existing_comment_ids of
             (Some e, new_entries, ids) \<Rightarrow> (Some e, sheet, ids)
           | (None, new_entries, ids) \<Rightarrow>
               (case batch_append_to_sheet sheet new_entries of
                  (r, sheet') \<Rightarrow> (r, sheet', ids))))"

text \<open>
  \<open>get_existing_comment_ids\<close>: \<open>set(sheet.col_values(3))\<close>. The client returns the
  formatted text of every cell of the column, so the set holds texts only. Which text
  the service shows for the third cell of a stored row is the service's business and is
  the parameter \<open>shown\<close>.
\<close>

definition get_existing_comment_ids :: "(pyval list \<Rightarrow> string) \<Rightarrow> world \<Rightarrow> atom list" where
  "get_existing_comment_ids shown sheet = map (\<lambda>row. AStr (shown row)) (sheet_rows sheet)"

text \<open>\<open>fnmatch.fnmatch\<close> for a pattern \<open>pre*suf\<close> with no other special character.\<close>

definition fnmatch_star :: "string \<Rightarrow> string \<Rightarrow> string \<Rightarrow> bool" where
  "fnmatch_star pre suf name =
     (length pre + length suf \<le> length name \<and> take (length pre) name = pre \<and>
      drop (length name - length suf) name = suf)"

text \<open>
  \<open>process_directory\<close>: the directory is the list of its entries, each comment file
  with its parsed content, in the order \<open>os.listdir\<close> gives them. An exception ends
  the run; the rows appended before it stay.
\<close>

fun process_files ::
  "(real \<Rightarrow> string) \<Rightarrow> string \<Rightarrow> (string \<times> pyval list) list \<Rightarrow> world \<Rightarrow> atom list
     \<Rightarrow> exn option \<times> world" where
  "process_files frepr directory [] sheet existing_comment_ids = (None, sheet)"
| "process_files frepr directory ((filename, comments) # rest) sheet existing_comment_ids =
     (if fnmatch_star ''uwaterlooconfessions-'' ''comments.json'' filename
      then (case process_comment_file frepr (path_join directory filename) comments sheet
                   existing_comment_ids of
              (Some e, sheet', ids) \<Rightarrow> (Some e, sheet')
            | (None, sheet', ids) \<Rightarrow>
                process_files frepr directory rest (sheet'\<lparr>sleeps := sleeps sheet' @ [1]\<rparr>) ids)
      else process_files frepr directory rest sheet existing_comment_ids)"

definition process_directory ::
  "(real \<Rightarrow> string) \<Rightarrow> (pyval list \<Rightarrow> string) \<Rightarrow> string \<Rightarrow> (string \<times> pyval list) list
     \<Rightarrow> world \<Rightarrow> exn option \<times> world" where
  "process_directory frepr shown directory entries sheet =
     process_files frepr directory entries sheet (get_existing_comment_ids shown sheet)"

text \<open>
  The \<open>__main__\<close> block of a script, as a process: what it printed and the status it
  exited with. \<open>body\<close> is the rest of the script, run on the two arguments.
\<close>

record proc =
  stdout :: "string list"
  exit_code :: int

definition confessor_main :: "(string \<Rightarrow> string \<Rightarrow> proc) \<Rightarrow> string list \<Rightarrow> proc" where
  "confessor_main body argv =
     (if length argv \<noteq> 3
      then \<lparr>stdout = [''Usage: python script.py <directory> <google_api_json_key_file>''],
            exit_code = 1\<rparr>
      else body (argv ! 1) (argv ! 2))"

section \<open>confess-ocr.py: one row per image\<close>

text \<open>\<open>s.split(d)\<close> for a one-character separator, \<open>sep.join(parts)\<close>,
  \<open>s.replace(old, new)\<close> for a non-empty \<open>old\<close> (every occurrence, left to right)
  and \<open>s.endswith(suf)\<close>.\<close>

fun split_on :: "char \<Rightarrow> string \<Rightarrow> string list" where
  "split_on d [] = [[]]"
| "split_on d (c # cs) =
     (if c = d then [] # split_on d cs
      else (c # hd (split_on d cs)) # tl (split_on d cs))"

fun py_join :: "string \<Rightarrow> string list \<Rightarrow> string" where
  "py_join sep [] = []"
| "py_join sep [p] = p"
| "py_join sep (p # q # ps) = p @ sep @ py_join sep (q # ps)"

function str_replace :: "string \<Rightarrow> string \<Rightarrow> string \<Rightarrow> string" where
  "str_replace old new [] = []"
| "str_replace old new (c # cs) =
     (if old \<noteq> [] \<and> take (length old) (c # cs) = old
      then new @ str_replace old new (drop (length old) (c # cs))
      else c # str_replace old new cs)"
  by pat_completeness auto
termination
  by (relation "measure (\<lambda>(old, new, s). length s)") (auto simp: Suc_diff_le)

definition str_endswith :: "string \<Rightarrow> string \<Rightarrow> bool" where
  "str_endswith suf s = (length suf \<le> length s \<and> drop (length s - length suf) s = suf)"

text \<open>
  \<open>process_filename\<close>: \<open>parts[1]\<close> raises \<open>IndexError\<close> when the name holds no
  hyphen; \<open>parts[2:]\<close> is empty when it holds one only.
\<close>

definition process_filename :: "string \<Rightarrow> exn + (string \<times> string)" where
  "process_filename filename =
     (let parts = split_on CHR ''-'' filename
      in if length parts < 2 then Inl IndexError
         else Inr (parts ! 1, str_replace ''.jpg'' [] (py_join ''-'' (drop 2 parts))))"

text \<open>
  \<open>ocr_image\<close>: \<open>engine\<close> is \<open>pytesseract.image_to_string\<close> with the script's flags,
  which returns the recognised text or raises (the binary is missing, the file is no
  image). The \<open>except Exception\<close> branch prints and returns the empty text.
\<close>

definition ocr_image :: "(string \<Rightarrow> exn + string) \<Rightarrow> string \<Rightarrow> string" where
  "ocr_image engine image_path =
     (case engine image_path of
        Inr text \<Rightarrow> py_strip text
      | Inl e \<Rightarrow> [])"

text \<open>
  The worksheet of confessions: its rows of cell texts, and the answers of the service
  to the coming \<open>append_row\<close> calls. \<open>append_row\<close> sends the values as they are
  (the client's default input option), so a text is stored and read back unchanged;
  \<open>col_values(1)\<close> is the first cell of every row.
\<close>

record ocr_sheet =
  ocr_rows :: "string list list"
  ocr_responses :: "api_outcome list"

definition col_values_1 :: "ocr_sheet \<Rightarrow> string list" where
  "col_values_1 sheet = map (\<lambda>r. case r of [] \<Rightarrow> [] | c # _ \<Rightarrow> c) (ocr_rows sheet)"

definition append_row :: "ocr_sheet \<Rightarrow> string list \<Rightarrow> exn option \<times> ocr_sheet" where
  "append_row sheet r =
     (case ocr_responses sheet of
        [] \<Rightarrow> (None, sheet\<lparr>ocr_rows := ocr_rows sheet @ [r]\<rparr>)
      | ApiOk # q \<Rightarrow> (None, sheet\<lparr>ocr_rows := ocr_rows sheet @ [r], ocr_responses := q\<rparr>)
      | ApiRaise e # q \<Rightarrow> (Some e, sheet\<lparr>ocr_responses := q\<rparr>))"

fun image_loop ::
  "(string \<Rightarrow> exn + string) \<Rightarrow> string \<Rightarrow> string list \<Rightarrow> string list \<Rightarrow> ocr_sheet
     \<Rightarrow> exn option \<times> ocr_sheet" where
  "image_loop engine directory_path existing_filenames [] sheet = (None, sheet)"
| "image_loop engine directory_path existing_filenames (image_file # rest) sheet =
     (if str_endswith ''.jpg'' image_file \<and> image_file \<notin> set existing_filenames
      then (case process_filename image_file of
              Inl e \<Rightarrow> (Some e, sheet)
            | Inr (post_id, post_date) \<Rightarrow>
                (case append_row sheet
                        [image_file, post_id, post_date,
                         ocr_image engine (path_join directory_path image_file)] of
                   (Some e, sheet') \<Rightarrow> (Some e, sheet')
                 | (None, sheet') \<Rightarrow>
                     image_loop engine directory_path existing_filenames rest sheet'))
      else image_loop engine directory_path existing_filenames rest sheet)"

text \<open>\<open>check_and_append_rows\<close>: \<open>listing\<close> is \<open>os.listdir(directory_path)\<close>.\<close>

definition check_and_append_rows ::
  "(string \<Rightarrow> exn + string) \<Rightarrow> string \<Rightarrow> string list \<Rightarrow> ocr_sheet \<Rightarrow> exn option \<times> ocr_sheet" where
  "check_and_append_rows engine directory_path listing sheet =
     image_loop engine directory_path (col_values_1 sheet) listing sheet"

definition confess_ocr_main ::
  "(string \<Rightarrow> bool) \<Rightarrow> (string \<Rightarrow> string \<Rightarrow> proc) \<Rightarrow> string list \<Rightarrow> proc" where
  "confess_ocr_main isdir body argv =
     (if length argv \<noteq> 3
      then \<lparr>stdout = [''Usage: python confess-ocr.py <directory_path> <json_key_file>''],
            exit_code = 1\<rparr>
      else if \<not> isdir (argv ! 1)
      then \<lparr>stdout = [''Error: '' @ argv ! 1 @ '' is not a valid directory.''], exit_code = 1\<rparr>
      else body (argv ! 1) (argv ! 2))"

section \<open>mangeur-de-legende.py: back-filling captions\<close>

text \<open>
  \<open>get_post_id_from_filename\<close>: the search for
  \<open>uwaterlooconfessions-(\d+)-\d{4}-\d{2}-\d{2}_\d{2}-\d{2}-\d{2}-UTC\.txt\<close>. After the
  group the pattern is a fixed sequence of literals and digit blocks of known length.
\<close>

datatype tok = Lit string | Digits nat

fun match_seq :: "tok list \<Rightarrow> string \<Rightarrow> bool" where
  "match_seq [] s = True"
| "match_seq (Lit l # ts) s =
     (case strip_prefix l s of None \<Rightarrow> False | Some r \<Rightarrow> match_seq ts r)"
| "match_seq (Digits n # ts) s =
     (n \<le> length s \<and> list_all is_digit (take n s) \<and> match_seq ts (drop n s))"

definition caption_match_at :: "string \<Rightarrow> string option" where
  "caption_match_at s =
     (case strip_prefix ''uwaterlooconfessions-'' s of
        None \<Rightarrow> None
      | Some r \<Rightarrow>
          (case digits_then ''-'' r of
             None \<Rightarrow> None
           | Some (ds, r') \<Rightarrow>
               if match_seq [Digits 4, Lit ''-'', Digits 2, Lit ''-'', Digits 2, Lit ''_'',
                             Digits 2, Lit ''-'', Digits 2, Lit ''-'', Digits 2,
                             Lit ''-UTC.txt''] r'
               then Some ds else None))"

definition get_post_id_from_filename :: "string \<Rightarrow> string option" where
  "get_post_id_from_filename filename = re_search caption_match_at filename"

text \<open>
  A record of \<open>get_all_records\<close> is a dictionary from the header texts to the cells of
  one row. The worksheet of the caption script: the cells by (row, column), counted from
  1, what \<open>get_all_records\<close> answers, and whether \<open>update_cell\<close> will raise.
\<close>

type_synonym row = "(string \<times> atom) list"

record worksheet =
  grid :: "nat \<times> nat \<Rightarrow> string"
  records_answer :: "exn + row list"
  update_answer :: "exn option"

definition row_item :: "row \<Rightarrow> string \<Rightarrow> exn + atom" where
  "row_item r k = (case map_of r k of None \<Rightarrow> Inl (KeyError k) | Some v \<Rightarrow> Inr v)"

definition update_cell :: "worksheet \<Rightarrow> nat \<Rightarrow> nat \<Rightarrow> string \<Rightarrow> exn option \<times> worksheet" where
  "update_cell ws r c v =
     (case update_answer ws of
        Some e \<Rightarrow> (Some e, ws)
      | None \<Rightarrow> (None, ws\<lparr>grid := (grid ws)((r, c) := v)\<rparr>))"

text \<open>
  The loop of \<open>process_caption_file\<close> over \<open>enumerate(rows, start=2)\<close>. \<open>and\<close>
  reads \<open>row["Caption"]\<close> only when the post ids agree. The first row that passes is
  updated and the function returns.
\<close>

fun caption_loop ::
  "(real \<Rightarrow> string) \<Rightarrow> string \<Rightarrow> string \<Rightarrow> nat \<Rightarrow> row list \<Rightarrow> worksheet
     \<Rightarrow> exn option \<times> worksheet" where
  "caption_loop frepr post_id caption row_idx [] ws = (None, ws)"
| "caption_loop frepr post_id caption row_idx (r # rest) ws =
     (case row_item r ''Post ID'' of
        Inl e \<Rightarrow> (Some e, ws)
      | Inr pid \<Rightarrow>
          if py_str frepr pid = post_id
          then (case row_item r ''Caption'' of
                  Inl e \<Rightarrow> (Some e, ws)
                | Inr cap \<Rightarrow>
                    if \<not> py_truthy cap then update_cell ws row_idx 4 caption
                    else caption_loop frepr post_id caption (Suc row_idx) rest ws)
          else caption_loop frepr post_id caption (Suc row_idx) rest ws)"

text \<open>
  \<open>process_caption_file\<close>: \<open>content\<close> is the text of the caption file. Every exception
  inside the \<open>try\<close> is caught and printed, so the function returns in every case.
\<close>

definition process_caption_file ::
  "(real \<Rightarrow> string) \<Rightarrow> string \<Rightarrow> string \<Rightarrow> worksheet \<Rightarrow> worksheet" where
  "process_caption_file frepr file_path content ws =
     (case get_post_id_from_filename (basename file_path) of
        None \<Rightarrow> ws
      | Some post_id \<Rightarrow>
          (case records_answer ws of
             Inl e \<Rightarrow> ws
           | Inr rows \<Rightarrow> snd (caption_loop frepr post_id (py_strip content) 2 rows ws)))"

text \<open>The \<open>__main__\<close> block prints the usage line and ends; it sets no exit status.\<close>

definition mangeur_main :: "(string \<Rightarrow> string \<Rightarrow> proc) \<Rightarrow> string list \<Rightarrow> proc" where
  "mangeur_main body argv =
     (if length argv \<noteq> 3
      then \<lparr>stdout = [''Usage: python process_captions.py <directory> <json_key_file>''],
            exit_code = 0\<rparr>
      else body (argv ! 1) (argv ! 2))"

section \<open>The classification scripts\<close>

text \<open>
  The three scripts (sexism, hate speech, homophobia) share their \<open>main\<close> word for
  word, up to the header texts and the lines that turn the model's answer into a label
  and a score. These are the fields of \<open>script\<close>; \<open>job\<close> adds what one run fixes.

  An answer of the model is a list of dictionaries with a \<open>label\<close> text and a
  \<open>score\<close>. A pending cell update is the pair of its cell, as (row, column), and the
  value; the script names the cell in A1 notation, which is one-to-one with the pair.
  What a run does to the worksheet is the sequence of its calls: \<open>update_cell\<close> on a
  header cell, \<open>batch_update\<close> with a list of updates, \<open>time.sleep\<close>.
\<close>

record entry =
  e_label :: string
  e_score :: real

type_synonym update = "(nat \<times> nat) \<times> atom"

datatype event =
    UpdateCell nat nat string
  | BatchUpdate "update list"
  | Sleep real

record script =
  probe_label :: string
  probe_score :: string
  label_name :: string
  score_name :: string
  classify :: "string option \<Rightarrow> entry list \<Rightarrow> exn + (string \<times> real)"

text \<open>
  \<open>int(s)\<close> for a text: blanks around it, a sign, decimal digits, single underscores
  between digits. \<open>None\<close> is \<open>ValueError\<close>. The blanks that \<open>int\<close> accepts
  are fewer than those of \<open>str.strip\<close>: the characters 0x1C to 0x1F are not among
  them.
\<close>

definition is_int_space :: "char \<Rightarrow> bool" where
  "is_int_space c =
     (c \<in> set [CHR 0x09, CHR 0x0A, CHR 0x0B, CHR 0x0C, CHR 0x0D, CHR 0x20, CHR 0x85, CHR 0xA0])"

definition digit_val :: "char \<Rightarrow> nat" where
  "digit_val c = of_char c - 48"

definition py_int :: "string \<Rightarrow> int option" where
  "py_int s =
     (let t = rev (dropWhile is_int_space (rev (dropWhile is_int_space s)));
          neg = (t \<noteq> [] \<and> hd t = CHR ''-'');
          u = (if t \<noteq> [] \<and> (hd t = CHR ''-'' \<or> hd t = CHR ''+'') then tl t else t);
          groups = split_on CHR ''_'' u
      in if list_all (\<lambda>g. g \<noteq> [] \<and> list_all is_digit g) groups
         then Some ((if neg then - 1 else 1) *
                    int (foldl (\<lambda>a c. 10 * a + digit_val c) 0 (concat groups)))
         else None)"

text \<open>
  sexism-de-legende.py, lines 103 to 111: the first answer of the model, label 0 is
  \<open>non-sexist\<close> with the score negated, any other label is \<open>sexist\<close>.
\<close>

definition classify_sexism :: "string option \<Rightarrow> entry list \<Rightarrow> exn + (string \<times> real)" where
  "classify_sexism prev result =
     (case result of
        [] \<Rightarrow> Inl IndexError
      | r # _ \<Rightarrow>
          (case py_int (e_label r) of
             None \<Rightarrow> Inl ValueError
           | Some raw_label \<Rightarrow>
               if raw_label = 0 then Inr (''non-sexist'', - e_score r)
               else Inr (''sexist'', e_score r)))"

text \<open>
  detester-de-legende.py, lines 75 to 85: the defaults \<open>nothate\<close> and 0.0, then every
  entry of the answer in turn; the last entry with one of the two labels decides.
\<close>

definition hate_step :: "entry \<Rightarrow> string \<times> real \<Rightarrow> string \<times> real" where
  "hate_step e acc =
     (if e_label e = ''hate'' then (''hate'', e_score e)
      else if e_label e = ''nothate'' then (''nothate'', e_score e)
      else acc)"

definition classify_hate :: "string option \<Rightarrow> entry list \<Rightarrow> exn + (string \<times> real)" where
  "classify_hate prev result = Inr (fold hate_step result (''nothate'', 0))"

text \<open>
  homophobia-de-legende.py, lines 106 to 114: \<open>readable_label\<close> is assigned in the two
  branches only. For any other label of the model the variable keeps the value of the
  row classified before (\<open>prev\<close>), and is unbound when there was none.
\<close>

definition classify_homophobia :: "string option \<Rightarrow> entry list \<Rightarrow> exn + (string \<times> real)" where
  "classify_homophobia prev result =
     (case result of
        [] \<Rightarrow> Inl IndexError
      | r # _ \<Rightarrow>
          if e_label r = ''LABEL_1'' then Inr (''non-homophobic'', - e_score r)
          else if e_label r = ''LABEL_0'' then Inr (''homophobic'', e_score r)
          else (case prev of
                  None \<Rightarrow> Inl UnboundLocalError
                | Some readable_label \<Rightarrow> Inr (readable_label, e_score r)))"

definition sexism_script :: script where
  "sexism_script =
     \<lparr>probe_label = ''Label'', probe_score = ''Score'',
      label_name = ''Sexism Label'', score_name = ''Sexism Score'',
      classify = classify_sexism\<rparr>"

definition hate_script :: script where
  "hate_script =
     \<lparr>probe_label = ''Hate Label'', probe_score = ''Hate Score'',
      label_name = ''Hate Label'', score_name = ''Hate Score'',
      classify = classify_hate\<rparr>"

definition homophobia_script :: script where
  "homophobia_script =
     \<lparr>probe_label = ''Label'', probe_score = ''Score'',
      label_name = ''Homophobia Label'', score_name = ''Homophobia Score'',
      classify = classify_homophobia\<rparr>"

record job =
  the_script :: script
  model_pipeline :: "string \<Rightarrow> exn + entry list"
  float_repr :: "real \<Rightarrow> string"
  column :: string
  batch_size :: int
  label_col_index :: nat
  score_col_index :: nat

text \<open>\<open>row.get(key)\<close> and \<open>row.get(key, default)\<close>.\<close>

definition row_get :: "row \<Rightarrow> string \<Rightarrow> atom \<Rightarrow> atom" where
  "row_get r k dflt = (case map_of r k of None \<Rightarrow> dflt | Some v \<Rightarrow> v)"

text \<open>
  What the loop body does with one row before it touches \<open>updates\<close>: the two
  \<open>continue\<close> branches, an exception of the model or of the lines after it, or a label
  and a score.
\<close>

datatype action = Skip | Raise exn | Classified string real

definition row_action :: "job \<Rightarrow> string option \<Rightarrow> row \<Rightarrow> action" where
  "row_action j prev r =
     (let comment = py_strip (py_str (float_repr j) (row_get r (column j) (AStr [])))
      in if comment = [] then Skip
         else if py_truthy (row_get r (label_name (the_script j)) ANone) \<and>
                 row_get r (score_name (the_script j)) ANone \<noteq> ANone
         then Skip
         else (case model_pipeline j comment of
                 Inl e \<Rightarrow> Raise e
               | Inr result \<Rightarrow>
                   (case classify (the_script j) prev result of
                      Inl e \<Rightarrow> Raise e
                    | Inr (label, score) \<Rightarrow> Classified label score)))"

definition row_updates :: "job \<Rightarrow> nat \<Rightarrow> string \<Rightarrow> real \<Rightarrow> update list" where
  "row_updates j i label score =
     [((i + 2, label_col_index j), AStr label), ((i + 2, score_col_index j), AFloat score)]"

text \<open>
  The loop over \<open>enumerate(records)\<close> from index \<open>i\<close> on, with the pending
  \<open>updates\<close>, and the \<open>if updates\<close> after it. The result is the calls made from here
  on and the exception that ended the run, if any.
\<close>

fun classify_loop ::
  "job \<Rightarrow> nat \<Rightarrow> row list \<Rightarrow> update list \<Rightarrow> string option \<Rightarrow> event list \<times> exn option" where
  "classify_loop j i [] updates prev =
     (if updates \<noteq> [] then [BatchUpdate updates] else [], None)"
| "classify_loop j i (r # rest) updates prev =
     (case row_action j prev r of
        Skip \<Rightarrow> classify_loop j (Suc i) rest updates prev
      | Raise e \<Rightarrow> ([], Some e)
      | Classified label score \<Rightarrow>
          (let updates' = updates @ row_updates j i label score
           in if batch_size j * 2 \<le> int (length updates')
              then (case classify_loop j (Suc i) rest [] (Some label) of
                      (evs, res) \<Rightarrow> (BatchUpdate updates' # Sleep (5 / 2) # evs, res))
              else classify_loop j (Suc i) rest updates' (Some label)))"

text \<open>\<open>headers.index(x)\<close>; \<open>None\<close> is \<open>ValueError\<close>.\<close>

fun index_of :: "'a list \<Rightarrow> 'a \<Rightarrow> nat option" where
  "index_of [] x = None"
| "index_of (y # ys) x = (if y = x then Some 0 else map_option Suc (index_of ys x))"

text \<open>
  The header part of \<open>main\<close>: a missing column is added to the first row of the sheet
  and to \<open>headers\<close>, then the three indices are looked up.
\<close>

definition add_header :: "string \<Rightarrow> string \<Rightarrow> string list \<Rightarrow> event list \<times> string list" where
  "add_header probe name headers =
     (if probe \<notin> set headers
      then ([UpdateCell 1 (length headers + 1) name], headers @ [name])
      else ([], headers))"

definition classify_main ::
  "script \<Rightarrow> (string \<Rightarrow> exn + entry list) \<Rightarrow> (real \<Rightarrow> string) \<Rightarrow> row list option \<Rightarrow> string \<Rightarrow> int
     \<Rightarrow> event list \<times> exn option" where
  "classify_main sc pipeline frepr worksheet col bsize =
     (case worksheet of
        None \<Rightarrow> ([], None)
      | Some records \<Rightarrow>
          if records = [] then ([], None)
          else
            (let (ev1, h1) = add_header (probe_label sc) (label_name sc) (map fst (hd records));
                 (ev2, h2) = add_header (probe_score sc) (score_name sc) h1
             in case index_of h2 (label_name sc) of
                  None \<Rightarrow> (ev1 @ ev2, Some ValueError)
                | Some l \<Rightarrow>
                    (case index_of h2 (score_name sc) of
                       None \<Rightarrow> (ev1 @ ev2, Some ValueError)
                     | Some s \<Rightarrow>
                         (case index_of h2 col of
                            None \<Rightarrow> (ev1 @ ev2, Some ValueError)
                          | Some c \<Rightarrow>
                              (case classify_loop
                                      \<lparr>the_script = sc, model_pipeline = pipeline,
                                       float_repr = frepr, column = col, batch_size = bsize,
                                       label_col_index = l + 1, score_col_index = s + 1\<rparr>
                                      0 records [] None of
                                 (evs, res) \<Rightarrow> (ev1 @ ev2 @ evs, res))))))"

text \<open>
  The updates a run computes, row after row, with no regard to batches: the reference
  against which the flushes are counted.
\<close>

fun computed_updates :: "job \<Rightarrow> nat \<Rightarrow> row list \<Rightarrow> string option \<Rightarrow> update list" where
  "computed_updates j i [] prev = []"
| "computed_updates j i (r # rest) prev =
     (case row_action j prev r of
        Skip \<Rightarrow> computed_updates j (Suc i) rest prev
      | Raise e \<Rightarrow> []
      | Classified label score \<Rightarrow>
          row_updates j i label score @ computed_updates j (Suc i) rest (Some label))"

text \<open>The updates that the \<open>batch_update\<close> calls of a run sent, in order.\<close>

fun flushed :: "event list \<Rightarrow> update list" where
  "flushed [] = []"
| "flushed (BatchUpdate us # evs) = us @ flushed evs"
| "flushed (e # evs) = flushed evs"

section \<open>Notions used in the statements\<close>

text \<open>The answers of a service that refuses one call after the other, each with an
  \<open>APIError\<close> of the given status and text; \<open>names_429\<close> says that the text of
  such an error holds \<open>429\<close>, which is the test of the script.\<close>

definition refused :: "(int \<times> string) list \<Rightarrow> api_outcome list" where
  "refused errs = map (\<lambda>(code, msg). ApiRaise (APIError code msg)) errs"

definition names_429 :: "int \<times> string \<Rightarrow> bool" where
  "names_429 err = str_contains ''429'' (snd err)"

text \<open>The comment object of the specification's example and the row it is to give.\<close>

definition example_comment :: pyval where
  "example_comment =
     PDict [(''id'', Atom (AInt 7)), (''created_at'', Atom (AInt 1672531200)),
            (''owner'', PDict [(''username'', Atom (AStr ''x''))]),
            (''likes_count'', Atom (AInt 2)), (''text'', Atom (AStr ''hi''))]"

definition example_row :: "pyval list" where
  "example_row =
     [Atom (AStr ''2023-01-01 00:00:00''), Atom (AStr (CHR 0x27 # ''4821'')),
      Atom (AStr (CHR 0x27 # ''7'')), Atom (AStr ''x''), Atom (AInt 2), Atom (AStr ''hi'')]"

definition example_comment_file :: string where
  "example_comment_file = ''data/uwaterlooconfessions-4821-2023-01-05_10-20-30-UTC_comments.json''"

text \<open>
  A file name holds the pattern of \<open>extract_post_id\<close> when it can be cut into some
  text, the literal \<open>uwaterlooconfessions-\<close>, a non-empty run of digits, a hyphen and
  the rest.
\<close>

definition has_post_id_pattern :: "string \<Rightarrow> bool" where
  "has_post_id_pattern filename =
     (\<exists>pre ds rest. ds \<noteq> [] \<and> list_all is_digit ds \<and>
        filename = pre @ ''uwaterlooconfessions-'' @ ds @ ''-'' @ rest)"

text \<open>
  Notions for the caption script. A record is a slot for a post id when its
  \<open>Post ID\<close>, as a text, is that id and its \<open>Caption\<close> is empty in the sense the
  script tests, \<open>not row["Caption"]\<close>: the empty text (or a zero, for a cell that
  holds a number). \<open>has_columns\<close> says that both columns exist.
\<close>

definition is_slot :: "(real \<Rightarrow> string) \<Rightarrow> string \<Rightarrow> row \<Rightarrow> bool" where
  "is_slot frepr post_id r =
     (case (map_of r ''Post ID'', map_of r ''Caption'') of
        (Some pid, Some cap) \<Rightarrow> py_str frepr pid = post_id \<and> \<not> py_truthy cap
      | _ \<Rightarrow> False)"

definition has_columns :: "row \<Rightarrow> bool" where
  "has_columns r = (map_of r ''Post ID'' \<noteq> None \<and> map_of r ''Caption'' \<noteq> None)"

text \<open>A worksheet with three rows for post 4821, the first with a caption; a worksheet
  whose only row has the caption \<open>0\<close>, which \<open>get_all_records\<close> hands back as the
  number 0; and a caption file for that post.\<close>

definition example_caption_sheet :: worksheet where
  "example_caption_sheet =
     \<lparr>grid = (\<lambda>cell. [])((2, 4) := ''first caption''),
      records_answer =
        Inr [[(''Filename'', AStr ''a.jpg''), (''Post ID'', AInt 4821), (''Post date'', AStr ''d''),
              (''Caption'', AStr ''first caption'')],
             [(''Filename'', AStr ''b.jpg''), (''Post ID'', AInt 4821), (''Post date'', AStr ''d''),
              (''Caption'', AStr [])],
             [(''Filename'', AStr ''c.jpg''), (''Post ID'', AInt 4821), (''Post date'', AStr ''d''),
              (''Caption'', AStr [])]],
      update_answer = None\<rparr>"

definition zero_caption_sheet :: worksheet where
  "zero_caption_sheet =
     \<lparr>grid = (\<lambda>cell. [])((2, 4) := ''0''),
      records_answer =
        Inr [[(''Filename'', AStr ''a.jpg''), (''Post ID'', AInt 4821), (''Post date'', AStr ''d''),
              (''Caption'', AInt 0)]],
      update_answer = None\<rparr>"

definition example_caption_file :: string where
  "example_caption_file = ''captions/uwaterlooconfessions-4821-2023-01-05_10-20-30-UTC.txt''"

text \<open>
  The shape of the calls of one loop for batch size \<open>bs\<close>: flushes of exactly
  \<open>max 2 (2 * bs)\<close> updates, each followed at once by a sleep of 2.5 seconds, and at
  most one last flush, not empty and below \<open>2 * bs\<close>, with nothing after it.
  \<open>pending_ok\<close> is what holds of the pending updates between two rows.
\<close>

fun paced :: "int \<Rightarrow> event list \<Rightarrow> bool" where
  "paced bs [] = True"
| "paced bs [BatchUpdate us] = (us \<noteq> [] \<and> int (length us) < 2 * bs)"
| "paced bs (BatchUpdate us # Sleep d # evs) =
     (d = 5 / 2 \<and> int (length us) = max 2 (2 * bs) \<and> paced bs evs)"
| "paced bs evs = False"

definition pending_ok :: "int \<Rightarrow> update list \<Rightarrow> bool" where
  "pending_ok bs us = (even (length us) \<and> (us = [] \<or> int (length us) < 2 * bs))"

text \<open>
  A model that gives every text the same answer, a text for floats, and a run of the
  hate-speech script over four rows, one of them blank, with batch size 2.
\<close>

definition constant_pipeline :: "entry list \<Rightarrow> string \<Rightarrow> exn + entry list" where
  "constant_pipeline answer comment = Inr answer"

definition example_float_repr :: "real \<Rightarrow> string" where
  "example_float_repr r = ''0.5''"

definition example_job :: job where
  "example_job =
     \<lparr>the_script = hate_script,
      model_pipeline = constant_pipeline [\<lparr>e_label = ''hate'', e_score = 9 / 10\<rparr>],
      float_repr = example_float_repr, column = ''Text'', batch_size = 2,
      label_col_index = 2, score_col_index = 3\<rparr>"

definition example_records :: "row list" where
  "example_records =
     [[(''Text'', AStr ''one'')], [(''Text'', AStr '' '')], [(''Text'', AStr ''two'')],
      [(''Text'', AStr ''three'')]]"

text \<open>
  Notions for the skip test of the classification loop. \<open>no_text\<close>: the text to
  classify is empty after trimming. \<open>label_of\<close>, \<open>score_of\<close>: what
  \<open>row.get\<close> gives for the label and the score column. A field is populated when it is
  there and is not the empty text.
\<close>

definition no_text :: "job \<Rightarrow> row \<Rightarrow> bool" where
  "no_text j r = (py_strip (py_str (float_repr j) (row_get r (column j) (AStr []))) = [])"

definition label_of :: "job \<Rightarrow> row \<Rightarrow> atom" where
  "label_of j r = row_get r (label_name (the_script j)) ANone"

definition score_of :: "job \<Rightarrow> row \<Rightarrow> atom" where
  "score_of j r = row_get r (score_name (the_script j)) ANone"

definition populated :: "atom \<Rightarrow> bool" where
  "populated a = (a \<noteq> ANone \<and> a \<noteq> AStr [])"

text \<open>
  A list of updates made of pairs for one row each: a non-empty label text for the label
  column, then a float for the score column.
\<close>

fun label_score_pairs :: "job \<Rightarrow> update list \<Rightarrow> bool" where
  "label_score_pairs j [] = True"
| "label_score_pairs j (((r, c), AStr l) # ((r', c'), AFloat s) # us) =
     (r' = r \<and> c = label_col_index j \<and> c' = score_col_index j \<and> l \<noteq> [] \<and>
      label_score_pairs j us)"
| "label_score_pairs j us = False"

text \<open>Rows for the hate-speech job above: no text and no label; a label and no score;
  a text, the number 0 as label and a score; a sheet whose first row is labelled and
  whose second is not.\<close>

definition blank_row :: row where
  "blank_row = [(''Text'', AStr []), (''Hate Label'', AStr []), (''Hate Score'', AStr [])]"

definition half_labelled_row :: row where
  "half_labelled_row =
     [(''Text'', AStr ''some text''), (''Hate Label'', AStr ''hate''), (''Hate Score'', AStr [])]"

definition zero_label_row :: row where
  "zero_label_row =
     [(''Text'', AStr ''some text''), (''Hate Label'', AInt 0), (''Hate Score'', AFloat (1 / 2))]"

definition labelled_records :: "row list" where
  "labelled_records =
     [[(''Text'', AStr ''one''), (''Hate Label'', AStr ''hate''), (''Hate Score'', AFloat (9 / 10))],
      [(''Text'', AStr ''two''), (''Hate Label'', AStr []), (''Hate Score'', AStr [])]]"

text \<open>A model that answers the text \<open>first\<close> with \<open>LABEL_1\<close> and every other
  text with a third label, \<open>LABEL_2\<close>.\<close>

definition example_homophobia_pipeline :: "string \<Rightarrow> exn + entry list" where
  "example_homophobia_pipeline comment =
     (if comment = ''first'' then Inr [\<lparr>e_label = ''LABEL_1'', e_score = 9 / 10\<rparr>]
      else Inr [\<lparr>e_label = ''LABEL_2'', e_score = 8 / 10\<rparr>])"

text \<open>
  For the runs of the comment script: the name of the example file inside its directory,
  a worksheet with no rows, the example comment with its id as a text, and the text a
  sheet shows for a third cell that was entered behind an apostrophe (the apostrophe
  marks the cell as text and is not part of it).
\<close>

definition example_comment_name :: string where
  "example_comment_name = ''uwaterlooconfessions-4821-2023-01-05_10-20-30-UTC_comments.json''"

definition empty_sheet :: world where
  "empty_sheet = \<lparr>sheet_rows = [], responses = [], sleeps = []\<rparr>"

definition text_comment :: pyval where
  "text_comment =
     PDict [(''id'', Atom (AStr ''7'')), (''created_at'', Atom (AInt 1672531200)),
            (''owner'', PDict [(''username'', Atom (AStr ''x''))]),
            (''likes_count'', Atom (AInt 2)), (''text'', Atom (AStr ''hi''))]"

fun third_cell_text :: "pyval list \<Rightarrow> string" where
  "third_cell_text (a # b # Atom (AStr (c # s)) # rest) = (if c = CHR 0x27 then s else c # s)"
| "third_cell_text row = []"

text \<open>Ids that are new one after the other: none is equal to a known id or to an
  earlier one of the list.\<close>

fun fresh_ids :: "atom list \<Rightarrow> atom list \<Rightarrow> bool" where
  "fresh_ids known [] = True"
| "fresh_ids known (c # cs) = (\<not> py_in c known \<and> fresh_ids (known @ [c]) cs)"

section \<open>Properties\<close>

subsection \<open>Retry with backoff\<close>

lemma retry_loop_refused:
  "list_all names_429 errs \<Longrightarrow> responses w = refused errs @ rest \<Longrightarrow>
   length errs \<le> length idx \<Longrightarrow>
   retry_loop w rows idx =
     retry_loop (w\<lparr>responses := rest, sleeps := sleeps w @ map (\<lambda>i. 2 ^ i) (take (length errs) idx)\<rparr>)
       rows (drop (length errs) idx)"
proof (induction errs arbitrary: w idx)
  case Nil
  then show ?case by (auto simp: refused_def)
next
  case (Cons err errs)
  obtain code msg where err: "err = (code, msg)" by (cases err)
  from Cons.prems obtain i idx' where idx: "idx = i # idx'" by (cases idx) auto
  let ?w = "w\<lparr>responses := refused errs @ rest, sleeps := sleeps w @ [2 ^ i]\<rparr>"
  have step: "retry_loop w rows idx = retry_loop ?w rows idx'"
    using Cons.prems by (simp add: idx err append_rows_def refused_def names_429_def)
  have "retry_loop ?w rows idx' =
      retry_loop (?w\<lparr>responses := rest, sleeps := sleeps ?w @ map (\<lambda>i. 2 ^ i) (take (length errs) idx')\<rparr>)
       rows (drop (length errs) idx')"
    using Cons.prems by (intro Cons.IH) (simp_all add: idx)
  with step show ?case by (simp add: idx)
qed

text \<open>
  C2, as the code has it. \<open>retry_append_with_backoff\<close>, for every number of retries
  (3 by default): each \<open>APIError\<close> whose text holds 429 (a rate-limit error, and any
  other API error with 429 in its text) at attempt \<open>i\<close> is followed by a sleep of
  \<open>2 ^ i\<close> seconds. When fewer than \<open>retries\<close> such errors are followed by a
  success, the rows are appended and the result is \<open>True\<close>; after \<open>retries\<close> such
  errors in a row the result is \<open>False\<close>, nothing is raised and nothing is appended;
  an \<open>APIError\<close> whose text does not hold 429, and any exception that is no
  \<open>APIError\<close>, is raised at once, with no sleep and no further call.
\<close>

theorem retry_append_with_backoff_spec:
  assumes "list_all names_429 errs"
  shows "(length errs < nat retries \<longrightarrow> responses w = refused errs @ ApiOk # rest \<longrightarrow>
            retry_append_with_backoff w rows retries =
              (Inr True, w\<lparr>sheet_rows := sheet_rows w @ rows, responses := rest,
                            sleeps := sleeps w @ map (\<lambda>i. 2 ^ i) [0..<length errs]\<rparr>)) \<and>
         (length errs = nat retries \<longrightarrow> responses w = refused errs @ rest \<longrightarrow>
            retry_append_with_backoff w rows retries =
              (Inr False, w\<lparr>responses := rest,
                             sleeps := sleeps w @ map (\<lambda>i. 2 ^ i) [0..<nat retries]\<rparr>)) \<and>
         (length errs < nat retries \<longrightarrow> \<not> str_contains ''429'' m \<longrightarrow>
          responses w = refused errs @ ApiRaise (APIError c m) # rest \<longrightarrow>
            retry_append_with_backoff w rows retries =
              (Inl (APIError c m), w\<lparr>responses := rest,
                                      sleeps := sleeps w @ map (\<lambda>i. 2 ^ i) [0..<length errs]\<rparr>)) \<and>
         (length errs < nat retries \<longrightarrow> (\<forall>c' m'. e \<noteq> APIError c' m') \<longrightarrow>
          responses w = refused errs @ ApiRaise e # rest \<longrightarrow>
            retry_append_with_backoff w rows retries =
              (Inl e, w\<lparr>responses := rest,
                          sleeps := sleeps w @ map (\<lambda>i. 2 ^ i) [0..<length errs]\<rparr>))"
proof (intro conjI impI)
  assume len: "length errs < nat retries" and r: "responses w = refused errs @ ApiOk # rest"
  have d: "[length errs..<nat retries] = length errs # [Suc (length errs)..<nat retries]"
    by (rule upt_conv_Cons [OF len])
  show "retry_append_with_backoff w rows retries =
              (Inr True, w\<lparr>sheet_rows := sheet_rows w @ rows, responses := rest,
                            sleeps := sleeps w @ map (\<lambda>i. 2 ^ i) [0..<length errs]\<rparr>)"
    unfolding retry_append_with_backoff_def
    using len by (subst retry_loop_refused [OF assms r]) (simp_all add: d append_rows_def)
next
  assume len: "length errs = nat retries" and r: "responses w = refused errs @ rest"
  show "retry_append_with_backoff w rows retries =
              (Inr False, w\<lparr>responses := rest,
                             sleeps := sleeps w @ map (\<lambda>i. 2 ^ i) [0..<nat retries]\<rparr>)"
    unfolding retry_append_with_backoff_def
    using len by (subst retry_loop_refused [OF assms r]) simp_all
next
  assume len: "length errs < nat retries" and m: "\<not> str_contains ''429'' m"
    and r: "responses w = refused errs @ ApiRaise (APIError c m) # rest"
  have d: "[length errs..<nat retries] = length errs # [Suc (length errs)..<nat retries]"
    by (rule upt_conv_Cons [OF len])
  show "retry_append_with_backoff w rows retries =
              (Inl (APIError c m), w\<lparr>responses := rest,
                                      sleeps := sleeps w @ map (\<lambda>i. 2 ^ i) [0..<length errs]\<rparr>)"
    unfolding retry_append_with_backoff_def
    using len m by (subst retry_loop_refused [OF assms r]) (simp_all add: d append_rows_def)
next
  assume len: "length errs < nat retries" and e: "\<forall>c' m'. e \<noteq> APIError c' m'"
    and r: "responses w = refused errs @ ApiRaise e # rest"
  have d: "[length errs..<nat retries] = length errs # [Suc (length errs)..<nat retries]"
    by (rule upt_conv_Cons [OF len])
  show "retry_append_with_backoff w rows retries =
              (Inl e, w\<lparr>responses := rest,
                          sleeps := sleeps w @ map (\<lambda>i. 2 ^ i) [0..<length errs]\<rparr>)"
    unfolding retry_append_with_backoff_def
    using len e
    by (subst retry_loop_refused [OF assms r]) (cases e; simp_all add: d append_rows_def)+
qed

theorem retry_append_with_backoff_witness:
  "list_all names_429 [(429, ''429 quota''), (429, ''code 429'')] \<and>
   list_all names_429 [(429, ''429''), (429, ''429''), (429, ''429'')] \<and>
   default_retries = 3 \<and>
   retry_append_with_backoff
     \<lparr>sheet_rows = [], responses = refused [(429, ''429 quota''), (429, ''code 429'')] @ [ApiOk],
      sleeps = []\<rparr>
     [[Atom (AStr ''r'')]] default_retries =
     (Inr True, \<lparr>sheet_rows = [[Atom (AStr ''r'')]], responses = [], sleeps = [1, 2]\<rparr>) \<and>
   retry_append_with_backoff
     \<lparr>sheet_rows = [], responses = refused [(429, ''429''), (429, ''429''), (429, ''429'')] @ [ApiOk],
      sleeps = []\<rparr>
     [[Atom (AStr ''r'')]] default_retries =
     (Inr False, \<lparr>sheet_rows = [], responses = [ApiOk], sleeps = [1, 2, 4]\<rparr>) \<and>
   retry_append_with_backoff
     \<lparr>sheet_rows = [],
      responses = refused [(429, ''429 quota''), (429, ''code 429'')] @
                    [ApiRaise (APIError 500 ''server error''), ApiOk],
      sleeps = []\<rparr>
     [[Atom (AStr ''r'')]] default_retries =
     (Inl (APIError 500 ''server error''), \<lparr>sheet_rows = [], responses = [ApiOk], sleeps = [1, 2]\<rparr>) \<and>
   retry_append_with_backoff
     \<lparr>sheet_rows = [],
      responses = refused [(429, ''429 quota''), (429, ''code 429'')] @
                    [ApiRaise (OtherException ''connection reset''), ApiOk],
      sleeps = []\<rparr>
     [[Atom (AStr ''r'')]] default_retries =
     (Inl (OtherException ''connection reset''),
      \<lparr>sheet_rows = [], responses = [ApiOk], sleeps = [1, 2]\<rparr>)"
  using
    retry_append_with_backoff_spec [of "[(429, ''429 quota''), (429, ''code 429'')]" 3
      "\<lparr>sheet_rows = [], responses = refused [(429, ''429 quota''), (429, ''code 429'')] @ [ApiOk],
        sleeps = []\<rparr>"
      "[]" "[[Atom (AStr ''r'')]]" "''server error''" 500 "OtherException ''connection reset''"]
    retry_append_with_backoff_spec [of "[(429, ''429''), (429, ''429''), (429, ''429'')]" 3
      "\<lparr>sheet_rows = [], responses = refused [(429, ''429''), (429, ''429''), (429, ''429'')] @ [ApiOk],
        sleeps = []\<rparr>"
      "[ApiOk]" "[[Atom (AStr ''r'')]]" "''server error''" 500 "OtherException ''connection reset''"]
    retry_append_with_backoff_spec [of "[(429, ''429 quota''), (429, ''code 429'')]" 3
      "\<lparr>sheet_rows = [],
        responses = refused [(429, ''429 quota''), (429, ''code 429'')] @
                    [ApiRaise (APIError 500 ''server error''), ApiOk],
        sleeps = []\<rparr>"
      "[ApiOk]" "[[Atom (AStr ''r'')]]" "''server error''" 500 "OtherException ''connection reset''"]
    retry_append_with_backoff_spec [of "[(429, ''429 quota''), (429, ''code 429'')]" 3
      "\<lparr>sheet_rows = [],
        responses = refused [(429, ''429 quota''), (429, ''code 429'')] @
                    [ApiRaise (OtherException ''connection reset''), ApiOk],
        sleeps = []\<rparr>"
      "[ApiOk]" "[[Atom (AStr ''r'')]]" "''server error''" 500 "OtherException ''connection reset''"]
  by (simp add: default_retries_def names_429_def refused_def upt_rec)

text \<open>
  The claim as stated fails for an API error that is no rate-limit error and has 429 in
  its text: a status 400 error about a bad value \<open>values[429]\<close> is not raised; the
  script sleeps one second, calls again and returns \<open>True\<close>.
\<close>

theorem retry_non_rate_limit_counterexample:
  "retry_append_with_backoff
     \<lparr>sheet_rows = [],
      responses = [ApiRaise (APIError 400 ''APIError: [400]: Invalid values[429]''), ApiOk],
      sleeps = []\<rparr>
     [[Atom (AStr ''r'')]] default_retries =
     (Inr True, \<lparr>sheet_rows = [[Atom (AStr ''r'')]], responses = [], sleeps = [1]\<rparr>)"
  by (simp add: retry_append_with_backoff_def default_retries_def append_rows_def upt_rec)

subsection \<open>The example row of the comment script\<close>

lemma utcfromtimestamp_example: "utcfromtimestamp 1672531200 = Inr ''2023-01-01 00:00:00''"
  by code_simp

lemma str_int_7: "str_int 7 = ''7''"
  by (simp add: str_int_def str_nat.simps digit_char_def)

lemma comment_loop_example:
  "\<not> py_in (AInt 7) existing \<Longrightarrow>
   comment_loop frepr ''4821'' [example_comment] [] existing =
     (None, [example_row], existing @ [AInt 7])"
  by (simp add: example_comment_def example_row_def utcfromtimestamp_example str_int_7)

lemma batch_append_first_try:
  "rows \<noteq> [] \<Longrightarrow> responses sheet = [] \<or> hd (responses sheet) = ApiOk \<Longrightarrow>
   batch_append_to_sheet sheet rows =
     (None, sheet\<lparr>sheet_rows := sheet_rows sheet @ rows, responses := tl (responses sheet)\<rparr>)"
  by (cases "responses sheet")
     (auto simp: batch_append_to_sheet_def retry_append_with_backoff_def default_retries_def
        append_rows_def upt_rec split: api_outcome.splits)

lemma extract_post_id_example_file:
  "extract_post_id (basename example_comment_file) = Some ''4821''"
  by (simp add: example_comment_file_def basename_def extract_post_id_def post_id_match_at_def
        digits_then_def is_digit_def)

text \<open>
  C7. For the comment object \<open>{"id": 7, "created_at": 1672531200, "owner": {"username":
  "x"}, "likes_count": 2, "text": "hi"}\<close> in a file whose name gives the post id 4821,
  with the id 7 not yet known and the service accepting the call, \<open>process_comment_file\<close>
  appends exactly the row \<open>["2023-01-01 00:00:00", "'4821", "'7", "x", 2, "hi"]\<close>: the
  epoch seconds as a UTC text, both ids behind an apostrophe.
\<close>

theorem comment_row_example:
  assumes "extract_post_id (basename file_path) = Some ''4821''"
    and "\<not> py_in (AInt 7) existing"
    and "responses sheet = [] \<or> hd (responses sheet) = ApiOk"
  shows "process_comment_file frepr file_path [example_comment] sheet existing =
           (None,
            sheet\<lparr>sheet_rows := sheet_rows sheet @ [example_row],
                  responses := tl (responses sheet)\<rparr>,
            existing @ [AInt 7])"
  using assms
  by (simp add: process_comment_file_def comment_loop_example batch_append_first_try
        del: comment_loop.simps)

theorem comment_row_example_witness:
  "extract_post_id (basename example_comment_file) = Some ''4821'' \<and>
   \<not> py_in (AInt 7) [AStr ''Comment ID''] \<and>
   process_comment_file (\<lambda>r. ''0.5'') example_comment_file [example_comment]
       \<lparr>sheet_rows = [], responses = [], sleeps = []\<rparr> [AStr ''Comment ID''] =
     (None, \<lparr>sheet_rows = [example_row], responses = [], sleeps = []\<rparr>,
      [AStr ''Comment ID'', AInt 7])"
  using comment_row_example [of example_comment_file "[AStr ''Comment ID'']"
      "\<lparr>sheet_rows = [], responses = [], sleeps = []\<rparr>" "\<lambda>r. ''0.5''"]
  by (simp add: extract_post_id_example_file py_in_def py_eq_def)

subsection \<open>The OCR wrapper\<close>

lemma py_strip_decomp:
  "s = takeWhile is_space s @ py_strip s @ rev (takeWhile is_space (rev (dropWhile is_space s)))"
proof -
  let ?t = "dropWhile is_space s"
  have "rev (takeWhile is_space (rev ?t) @ dropWhile is_space (rev ?t)) = ?t"
    by (simp only: takeWhile_dropWhile_id rev_rev_ident)
  then have "py_strip s @ rev (takeWhile is_space (rev ?t)) = ?t"
    by (simp only: rev_append py_strip_def)
  moreover have "s = takeWhile is_space s @ ?t" by simp
  ultimately show ?thesis by simp
qed

lemma py_strip_ends:
  assumes "py_strip s \<noteq> []"
  shows "\<not> is_space (hd (py_strip s)) \<and> \<not> is_space (last (py_strip s))"
proof -
  let ?t = "dropWhile is_space s"
  let ?u = "dropWhile is_space (rev ?t)"
  have u: "?u \<noteq> []" using assms by (simp add: py_strip_def)
  have t: "?t \<noteq> []"
  proof
    assume "?t = []"
    then have "?u = []" by (simp only: rev.simps dropWhile.simps)
    with u show False by (rule notE)
  qed
  have l: "\<not> is_space (hd ?u)" using u by (rule hd_dropWhile)
  have "last (py_strip s) = hd ?u" using u by (simp add: py_strip_def last_rev)
  moreover have "hd (py_strip s) = hd ?t"
  proof -
    have "s = takeWhile is_space s @ py_strip s @ rev (takeWhile is_space (rev ?t))"
      by (rule py_strip_decomp)
    then have "takeWhile is_space s @ ?t =
        takeWhile is_space s @ py_strip s @ rev (takeWhile is_space (rev ?t))"
      by simp
    then have "?t = py_strip s @ rev (takeWhile is_space (rev ?t))"
      by (simp only: same_append_eq)
    then have "hd ?t = hd (py_strip s @ rev (takeWhile is_space (rev ?t)))"
      by simp
    also have "\<dots> = hd (py_strip s)" using assms by (rule hd_append2)
    finally show ?thesis by (rule sym)
  qed
  moreover have "\<not> is_space (hd ?t)" using t by (rule hd_dropWhile)
  ultimately show ?thesis using l by simp
qed

text \<open>
  C9. \<open>ocr_image\<close> returns a text in every case. When the engine returns a text, the
  result is that text without the white space around it: the text is the result between
  two runs of white space, and the result neither starts nor ends with white space. When
  the engine raises, whatever the exception, the result is the empty text.
\<close>

theorem ocr_image_spec:
  "(engine image_path = Inr text \<longrightarrow>
      ocr_image engine image_path = py_strip text \<and>
      (\<exists>a b. text = a @ py_strip text @ b \<and> list_all is_space a \<and> list_all is_space b) \<and>
      (py_strip text \<noteq> [] \<longrightarrow> \<not> is_space (hd (py_strip text)) \<and> \<not> is_space (last (py_strip text)))) \<and>
   (engine image_path = Inl e \<longrightarrow> ocr_image engine image_path = [])"
proof (intro conjI impI)
  show "\<exists>a b. text = a @ py_strip text @ b \<and> list_all is_space a \<and> list_all is_space b"
  proof (intro exI conjI)
    show "text = takeWhile is_space text @ py_strip text @
            rev (takeWhile is_space (rev (dropWhile is_space text)))"
      by (rule py_strip_decomp)
    show "list_all is_space (takeWhile is_space text)"
      by (simp add: list_all_iff) (meson set_takeWhileD)
    show "list_all is_space (rev (takeWhile is_space (rev (dropWhile is_space text))))"
      by (simp add: list_all_iff) (meson set_takeWhileD)
  qed
qed (simp_all add: ocr_image_def py_strip_ends)

theorem ocr_image_witness:
  "ocr_image (\<lambda>p. if p = ''a.jpg'' then Inr ''  hello world  '' else Inl (OtherException ''tesseract'')) ''a.jpg''
     = ''hello world'' \<and>
   ocr_image (\<lambda>p. if p = ''a.jpg'' then Inr ''  hello world  '' else Inl (OtherException ''tesseract'')) ''b.jpg''
     = []"
  using ocr_image_spec [of "\<lambda>p. if p = ''a.jpg'' then Inr ''  hello world  '' else Inl (OtherException ''tesseract'')"
         "''a.jpg''" "''  hello world  ''" "OtherException ''tesseract''"]
     ocr_image_spec [of "\<lambda>p. if p = ''a.jpg'' then Inr ''  hello world  '' else Inl (OtherException ''tesseract'')"
         "''b.jpg''" "''  hello world  ''" "OtherException ''tesseract''"]
  by (simp add: py_strip_def is_space_def)

subsection \<open>Exit status on malformed arguments\<close>

lemma confessor_main_usage:
  "length argv \<noteq> 3 \<Longrightarrow>
   confessor_main body argv =
     \<lparr>stdout = [''Usage: python script.py <directory> <google_api_json_key_file>''], exit_code = 1\<rparr>"
  by (simp add: confessor_main_def)

lemma confess_ocr_main_usage:
  "length argv \<noteq> 3 \<Longrightarrow>
   confess_ocr_main isdir body argv =
     \<lparr>stdout = [''Usage: python confess-ocr.py <directory_path> <json_key_file>''], exit_code = 1\<rparr>"
  by (simp add: confess_ocr_main_def)

text \<open>
  C6. With a wrong number of arguments the comment script and the OCR script print their
  usage line and exit with status 1 (the two lemmas above). The caption script, called
  with one argument instead of two, prints its usage line and ends with status 0.
\<close>

theorem mangeur_main_usage_exit_status:
  "mangeur_main body [''mangeur-de-legende.py'', ''captions''] =
     \<lparr>stdout = [''Usage: python process_captions.py <directory> <json_key_file>''], exit_code = 0\<rparr>"
  by (simp add: mangeur_main_def)

subsection \<open>Parsing file names\<close>

lemma strip_prefix_Some: "strip_prefix p s = Some r \<longleftrightarrow> s = p @ r"
  by (induction p s rule: strip_prefix.induct) auto

lemma digits_then_Some:
  "digits_then lit s = Some (ds, r) \<Longrightarrow>
     ds \<noteq> [] \<and> list_all is_digit ds \<and> s = ds @ lit @ r"
proof -
  assume a: "digits_then lit s = Some (ds, r)"
  then have ds: "ds = takeWhile is_digit s" and ne: "ds \<noteq> []"
    and sp: "strip_prefix lit (dropWhile is_digit s) = Some r"
    by (auto simp: digits_then_def Let_def split: if_splits option.splits)
  from sp have "dropWhile is_digit s = lit @ r" by (simp add: strip_prefix_Some)
  then have "s = ds @ lit @ r"
    using takeWhile_dropWhile_id [of is_digit s] ds by simp
  moreover have "list_all is_digit ds"
    unfolding ds by (simp add: list_all_iff) (meson set_takeWhileD)
  ultimately show ?thesis using ne by simp
qed

lemma digits_then_hyphen:
  "ds \<noteq> [] \<Longrightarrow> list_all is_digit ds \<Longrightarrow> digits_then ''-'' (ds @ CHR ''-'' # rest) = Some (ds, rest)"
proof -
  assume ne: "ds \<noteq> []" and dg: "list_all is_digit ds"
  have nd: "\<not> is_digit CHR ''-''" by (simp add: is_digit_def)
  have t: "takeWhile is_digit (ds @ CHR ''-'' # rest) = ds"
    using dg nd by (simp add: list_all_iff takeWhile_append2)
  have d: "dropWhile is_digit (ds @ CHR ''-'' # rest) = CHR ''-'' # rest"
    using dg nd by (simp add: list_all_iff dropWhile_append2)
  show ?thesis using ne by (simp add: digits_then_def t d)
qed

lemma post_id_match_at_Some:
  "post_id_match_at s = Some ds \<Longrightarrow>
     ds \<noteq> [] \<and> list_all is_digit ds \<and> (\<exists>rest. s = ''uwaterlooconfessions-'' @ ds @ ''-'' @ rest)"
  unfolding post_id_match_at_def
  by (auto split: option.splits simp: strip_prefix_Some dest!: digits_then_Some)

lemma post_id_match_at_pattern:
  "ds \<noteq> [] \<Longrightarrow> list_all is_digit ds \<Longrightarrow>
     post_id_match_at (''uwaterlooconfessions-'' @ ds @ CHR ''-'' # rest) = Some ds"
  by (simp add: post_id_match_at_def digits_then_hyphen)

lemma re_search_here: "match_at s = Some g \<Longrightarrow> re_search match_at s = Some g"
  by (cases s) simp_all

lemma re_search_Some:
  "re_search match_at s = Some g \<Longrightarrow> \<exists>pre suf. s = pre @ suf \<and> match_at suf = Some g"
proof (induction s)
  case Nil
  then show ?case by simp
next
  case (Cons c cs)
  show ?case
  proof (cases "match_at (c # cs)")
    case (Some h)
    with Cons.prems have "match_at (c # cs) = Some g" by simp
    then have "c # cs = [] @ (c # cs) \<and> match_at (c # cs) = Some g" by simp
    then show ?thesis by blast
  next
    case None
    with Cons.prems have "re_search match_at cs = Some g" by simp
    then obtain pre suf where "cs = pre @ suf" "match_at suf = Some g"
      using Cons.IH by blast
    then have "c # cs = (c # pre) @ suf \<and> match_at suf = Some g" by simp
    then show ?thesis by blast
  qed
qed

lemma split_on_sep:
  "d \<notin> set a \<Longrightarrow> split_on d (a @ d # rest) = a # split_on d rest"
  by (induction a) auto

lemma split_on_no_sep: "d \<notin> set s \<Longrightarrow> split_on d s = [s]"
  by (induction s) auto

lemma split_on_nonempty: "split_on d s \<noteq> []"
  by (induction s) auto

lemma split_on_two: "d \<in> set s \<Longrightarrow> 2 \<le> length (split_on d s)"
proof (induction s)
  case Nil
  then show ?case by simp
next
  case (Cons c cs)
  have ne: "split_on d cs \<noteq> []" by (rule split_on_nonempty)
  show ?case
  proof (cases "c = d")
    case True
    then show ?thesis using ne by (cases "split_on d cs") auto
  next
    case False
    with Cons.prems have "d \<in> set cs" by simp
    then have "2 \<le> length (split_on d cs)" by (rule Cons.IH)
    then show ?thesis using False by (cases "split_on d cs") auto
  qed
qed

lemma py_join_split_on: "py_join [d] (split_on d s) = s"
proof (induction s)
  case Nil
  then show ?case by simp
next
  case (Cons c cs)
  obtain p ps where sp: "split_on d cs = p # ps"
    using split_on_nonempty [of d cs] by (cases "split_on d cs") auto
  show ?case
  proof (cases "c = d")
    case True
    then show ?thesis using Cons.IH sp by simp
  next
    case False
    then show ?thesis using Cons.IH sp by (cases ps) auto
  qed
qed

lemma str_replace_suffix:
  "old \<noteq> [] \<Longrightarrow> hd old \<notin> set s \<Longrightarrow> str_replace old [] (s @ old) = s"
proof (induction s)
  case Nil
  then show ?case by (cases old) simp_all
next
  case (Cons c cs)
  then have "take (length old) (c # cs @ old) \<noteq> old"
    by (cases old) auto
  then show ?case using Cons by simp
qed


lemma process_filename_pattern:
  assumes "CHR ''-'' \<notin> set pre" "CHR ''-'' \<notin> set pid" "CHR ''.'' \<notin> set date"
  shows "process_filename (pre @ ''-'' @ pid @ ''-'' @ date @ ''.jpg'') = Inr (pid, date)"
proof -
  have "split_on CHR ''-'' (pre @ CHR ''-'' # (pid @ CHR ''-'' # (date @ ''.jpg'')))
          = pre # pid # split_on CHR ''-'' (date @ ''.jpg'')"
    using assms by (simp add: split_on_sep)
  moreover have "str_replace ''.jpg'' [] (py_join ''-'' (split_on CHR ''-'' (date @ ''.jpg''))) = date"
    using assms(3) by (simp only: py_join_split_on) (rule str_replace_suffix, simp_all)
  ultimately show ?thesis
    by (simp add: process_filename_def)
qed

lemma process_filename_hyphen:
  assumes "CHR ''-'' \<in> set filename"
  shows "\<exists>r. process_filename filename = Inr r"
  using split_on_two [OF assms] by (simp add: process_filename_def Let_def)

lemma extract_post_id_found:
  assumes "extract_post_id filename = Some ds"
  shows "ds \<noteq> [] \<and> list_all is_digit ds \<and>
      (\<exists>pre rest. filename = pre @ ''uwaterlooconfessions-'' @ ds @ ''-'' @ rest)"
proof -
  from assms have "re_search post_id_match_at filename = Some ds"
    by (simp only: extract_post_id_def)
  then have "\<exists>pre suf. filename = pre @ suf \<and> post_id_match_at suf = Some ds"
    by (rule re_search_Some)
  then obtain pre suf where f: "filename = pre @ suf" and m: "post_id_match_at suf = Some ds"
    by (elim exE conjE)
  note r = post_id_match_at_Some [OF m]
  from r obtain rest where s: "suf = ''uwaterlooconfessions-'' @ ds @ ''-'' @ rest"
    by (elim exE conjE)
  have "filename = pre @ ''uwaterlooconfessions-'' @ ds @ ''-'' @ rest"
    unfolding f s ..
  then have "\<exists>pre rest. filename = pre @ ''uwaterlooconfessions-'' @ ds @ ''-'' @ rest"
    by (intro exI)
  with r show ?thesis by (intro conjI) (elim conjE, assumption)+
qed

lemma extract_post_id_none:
  assumes "\<not> has_post_id_pattern filename"
  shows "extract_post_id filename = None"
proof (cases "extract_post_id filename")
  case None
  then show ?thesis .
next
  case (Some d)
  from extract_post_id_found [OF Some] have "has_post_id_pattern filename"
    unfolding has_post_id_pattern_def by blast
  with assms show ?thesis by (rule notE)
qed

lemma extract_post_id_first:
  assumes "ds \<noteq> []" "list_all is_digit ds"
  shows "extract_post_id (''uwaterlooconfessions-'' @ ds @ ''-'' @ rest) = Some ds"
proof -
  have e: "''uwaterlooconfessions-'' @ ds @ ''-'' @ rest = ''uwaterlooconfessions-'' @ ds @ CHR ''-'' # rest"
    by simp
  show ?thesis
    unfolding extract_post_id_def e
    by (rule re_search_here) (rule post_id_match_at_pattern [OF assms])
qed

lemma re_search_exists:
  "match_at suf = Some g \<Longrightarrow> \<exists>g'. re_search match_at (pre @ suf) = Some g'"
proof (induction pre)
  case Nil
  then have "re_search match_at suf = Some g" by (rule re_search_here)
  then show ?case by simp
next
  case (Cons c pre)
  then obtain g' where g': "re_search match_at (pre @ suf) = Some g'" by blast
  show ?case
  proof (cases "match_at (c # pre @ suf)")
    case None
    with g' show ?thesis by simp
  next
    case (Some h)
    then show ?thesis by simp
  qed
qed

lemma re_search_leftmost:
  "\<forall>k<length pre. match_at (drop k (pre @ suf)) = None \<Longrightarrow> match_at suf = Some g \<Longrightarrow>
     re_search match_at (pre @ suf) = Some g"
proof (induction pre)
  case Nil
  then show ?case by (simp add: re_search_here)
next
  case (Cons c pre)
  from Cons.prems(1) have here: "match_at (c # pre @ suf) = None" by fastforce
  have "\<forall>k<length pre. match_at (drop k (pre @ suf)) = None"
  proof (intro allI impI)
    fix k assume "k < length pre"
    then have "Suc k < length (c # pre)" by simp
    with Cons.prems(1) have "match_at (drop (Suc k) ((c # pre) @ suf)) = None" by blast
    then show "match_at (drop k (pre @ suf)) = None" by simp
  qed
  then have "re_search match_at (pre @ suf) = Some g" using Cons.prems(2) by (rule Cons.IH)
  with here show ?case by simp
qed

lemma extract_post_id_some_iff:
  "(\<exists>ds. extract_post_id filename = Some ds) \<longleftrightarrow> has_post_id_pattern filename"
proof
  assume "\<exists>ds. extract_post_id filename = Some ds"
  then obtain ds where "extract_post_id filename = Some ds" ..
  note r = extract_post_id_found [OF this]
  from r obtain pre rest where "filename = pre @ ''uwaterlooconfessions-'' @ ds @ ''-'' @ rest"
    by (elim exE conjE)
  moreover have "ds \<noteq> []" using r by (rule conjunct1)
  moreover have "list_all is_digit ds" using r by (rule conjunct2 [THEN conjunct1])
  ultimately have "ds \<noteq> [] \<and> list_all is_digit ds \<and>
      filename = pre @ ''uwaterlooconfessions-'' @ ds @ ''-'' @ rest"
    by (intro conjI)
  then show "has_post_id_pattern filename"
    unfolding has_post_id_pattern_def by (intro exI)
next
  assume "has_post_id_pattern filename"
  then obtain pre ds rest where d: "ds \<noteq> []" "list_all is_digit ds"
    and f: "filename = pre @ ''uwaterlooconfessions-'' @ ds @ ''-'' @ rest"
    unfolding has_post_id_pattern_def by (elim exE conjE)
  have "post_id_match_at (''uwaterlooconfessions-'' @ ds @ CHR ''-'' # rest) = Some ds"
    using d by (rule post_id_match_at_pattern)
  then have "\<exists>g'. re_search post_id_match_at
                  (pre @ ''uwaterlooconfessions-'' @ ds @ CHR ''-'' # rest) = Some g'"
    by (rule re_search_exists)
  moreover have "''uwaterlooconfessions-'' @ ds @ ''-'' @ rest =
                   ''uwaterlooconfessions-'' @ ds @ CHR ''-'' # rest" by simp
  ultimately show "\<exists>ds. extract_post_id filename = Some ds"
    unfolding extract_post_id_def f by (simp only:)
qed

text \<open>
  What holds of the two parsers. \<open>extract_post_id\<close> returns the digits between
  \<open>uwaterlooconfessions-\<close> and the next hyphen for every name that starts with the
  pattern, whatever it returns is such a run of digits of the name, and it returns
  \<open>None\<close> exactly for the names that do not hold the pattern (with
  \<open>extract_post_id_some_iff\<close>; \<open>re_search_leftmost\<close>: the leftmost place counts).
  \<open>process_filename\<close> checks no pattern: for a name \<open>prefix-id-date.jpg\<close> (no hyphen
  in the prefix and the id, no dot in the date) it returns the id and the date, and for
  every name with a hyphen it returns a pair of texts.
\<close>

lemma filename_parsing:
  "(ds \<noteq> [] \<and> list_all is_digit ds \<longrightarrow>
      extract_post_id (''uwaterlooconfessions-'' @ ds @ ''-'' @ rest) = Some ds) \<and>
   (extract_post_id filename = Some ds' \<longrightarrow>
      ds' \<noteq> [] \<and> list_all is_digit ds' \<and>
      (\<exists>pre rest'. filename = pre @ ''uwaterlooconfessions-'' @ ds' @ ''-'' @ rest')) \<and>
   (\<not> has_post_id_pattern filename \<longrightarrow> extract_post_id filename = None) \<and>
   (CHR ''-'' \<notin> set pre \<and> CHR ''-'' \<notin> set pid \<and> CHR ''.'' \<notin> set date \<longrightarrow>
      process_filename (pre @ ''-'' @ pid @ ''-'' @ date @ ''.jpg'') = Inr (pid, date)) \<and>
   (CHR ''-'' \<in> set name \<longrightarrow> (\<exists>r. process_filename name = Inr r))"
proof (intro conjI impI)
  show "extract_post_id (''uwaterlooconfessions-'' @ ds @ ''-'' @ rest) = Some ds"
    if "ds \<noteq> [] \<and> list_all is_digit ds"
    using that by (intro extract_post_id_first) (elim conjE, assumption)+
  show "process_filename (pre @ ''-'' @ pid @ ''-'' @ date @ ''.jpg'') = Inr (pid, date)"
    if "CHR ''-'' \<notin> set pre \<and> CHR ''-'' \<notin> set pid \<and> CHR ''.'' \<notin> set date"
    using that by (intro process_filename_pattern) (elim conjE, assumption)+
  show "\<exists>r. process_filename name = Inr r" if "CHR ''-'' \<in> set name"
    using that by (rule process_filename_hyphen)
  show "extract_post_id filename = None" if "\<not> has_post_id_pattern filename"
    using that by (rule extract_post_id_none)
next
  assume a: "extract_post_id filename = Some ds'"
  note r = extract_post_id_found [OF a]
  show "ds' \<noteq> []" using r by (elim conjE)
  show "list_all is_digit ds'" using r by (elim conjE)
  show "\<exists>pre rest'. filename = pre @ ''uwaterlooconfessions-'' @ ds' @ ''-'' @ rest'"
    using r by (elim conjE)
qed

text \<open>
  C5. \<open>extract_post_id\<close> is as claimed (the lemmas above). \<open>process_filename\<close> is
  not: \<open>photo.jpg\<close> and \<open>holiday-photo.jpg\<close> do not hold the pattern, yet the
  first raises \<open>IndexError\<close>, which ends the run of \<open>check_and_append_rows\<close> over
  a directory with that file, and the second yields the pair of \<open>photo.jpg\<close> and
  the empty text where \<open>None\<close> is claimed.
\<close>

theorem process_filename_unmatched_names:
  "extract_post_id ''photo.jpg'' = None \<and>
   process_filename ''photo.jpg'' = Inl IndexError \<and>
   extract_post_id ''holiday-photo.jpg'' = None \<and>
   process_filename ''holiday-photo.jpg'' = Inr (''photo.jpg'', []) \<and>
   check_and_append_rows engine ''images'' [''photo.jpg''] \<lparr>ocr_rows = [], ocr_responses = []\<rparr> =
     (Some IndexError, \<lparr>ocr_rows = [], ocr_responses = []\<rparr>)"
proof -
  have a: "extract_post_id ''photo.jpg'' = None \<and>
   process_filename ''photo.jpg'' = Inl IndexError \<and>
   extract_post_id ''holiday-photo.jpg'' = None \<and>
   process_filename ''holiday-photo.jpg'' = Inr (''photo.jpg'', [])"
    by code_simp
  have "check_and_append_rows engine ''images'' [''photo.jpg''] \<lparr>ocr_rows = [], ocr_responses = []\<rparr> =
     (Some IndexError, \<lparr>ocr_rows = [], ocr_responses = []\<rparr>)"
    using a by (simp add: check_and_append_rows_def col_values_1_def str_endswith_def)
  with a show ?thesis by (simp only: simp_thms)
qed

lemma photo_no_pattern: "\<not> has_post_id_pattern ''photo.jpg''"
proof
  assume "has_post_id_pattern ''photo.jpg''"
  then obtain pre ds rest where "''photo.jpg'' = pre @ ''uwaterlooconfessions-'' @ ds @ ''-'' @ rest"
    unfolding has_post_id_pattern_def by (elim exE conjE)
  then have "length ''photo.jpg'' = length (pre @ ''uwaterlooconfessions-'' @ ds @ ''-'' @ rest)"
    by (rule arg_cong)
  then show False by simp
qed

lemma filename_parsing_examples:
  "extract_post_id ''uwaterlooconfessions-4821-2023-01-05_10-20-30-UTC.jpg'' = Some ''4821'' \<and>
   process_filename ''uwaterlooconfessions-4821-2023-01-05_10-20-30-UTC.jpg'' =
     Inr (''4821'', ''2023-01-05_10-20-30-UTC'') \<and>
   \<not> has_post_id_pattern ''photo.jpg'' \<and> extract_post_id ''photo.jpg'' = None \<and>
   CHR ''-'' \<in> set ''holiday-photo.jpg'' \<and> (\<exists>r. process_filename ''holiday-photo.jpg'' = Inr r)"
proof -
  have d: "''4821'' \<noteq> [] \<and> list_all is_digit ''4821''"
    by (simp add: is_digit_def)
  have "extract_post_id (''uwaterlooconfessions-'' @ ''4821'' @ ''-'' @ ''2023-01-05_10-20-30-UTC.jpg'')
          = Some ''4821''"
    using d by (rule filename_parsing [THEN conjunct1, THEN mp])
  then have a: "extract_post_id ''uwaterlooconfessions-4821-2023-01-05_10-20-30-UTC.jpg'' = Some ''4821''"
    by simp
  have "CHR ''-'' \<notin> set ''uwaterlooconfessions'' \<and> CHR ''-'' \<notin> set ''4821'' \<and>
        CHR ''.'' \<notin> set ''2023-01-05_10-20-30-UTC''"
    by simp
  then have "process_filename (''uwaterlooconfessions'' @ ''-'' @ ''4821'' @ ''-'' @
                 ''2023-01-05_10-20-30-UTC'' @ ''.jpg'') = Inr (''4821'', ''2023-01-05_10-20-30-UTC'')"
    by (rule filename_parsing [THEN conjunct2, THEN conjunct2, THEN conjunct2, THEN conjunct1, THEN mp])
  then have b: "process_filename ''uwaterlooconfessions-4821-2023-01-05_10-20-30-UTC.jpg'' =
       Inr (''4821'', ''2023-01-05_10-20-30-UTC'')"
    by simp
  have c: "extract_post_id ''photo.jpg'' = None"
    using photo_no_pattern
    by (rule filename_parsing [THEN conjunct2, THEN conjunct2, THEN conjunct1, THEN mp])
  have h: "CHR ''-'' \<in> set ''holiday-photo.jpg''" by simp
  then have e: "\<exists>r. process_filename ''holiday-photo.jpg'' = Inr r"
    by (rule filename_parsing [THEN conjunct2, THEN conjunct2, THEN conjunct2, THEN conjunct2, THEN mp])
  show ?thesis using a b c e h photo_no_pattern by (intro conjI)
qed

subsection \<open>The caption back-fill\<close>

lemma caption_loop_frame:
  "caption_loop frepr post_id caption k rows ws = (e, ws') \<Longrightarrow>
   ws' = ws \<or>
   (\<exists>i<length rows. is_slot frepr post_id (rows ! i) \<and>
        (\<forall>j<i. \<not> is_slot frepr post_id (rows ! j)) \<and>
        ws' = ws\<lparr>grid := (grid ws)((k + i, 4) := caption)\<rparr>)"
proof (induction rows arbitrary: k)
  case Nil
  then show ?case by simp
next
  case (Cons r rest)
  show ?case
  proof (cases "is_slot frepr post_id r")
    case True
    then have "caption_loop frepr post_id caption k (r # rest) ws = update_cell ws k 4 caption"
      by (auto simp: is_slot_def row_item_def split: option.splits)
    with Cons.prems have "ws' = ws \<or> ws' = ws\<lparr>grid := (grid ws)((k, 4) := caption)\<rparr>"
      by (auto simp: update_cell_def split: option.splits)
    then show ?thesis
    proof
      assume "ws' = ws" then show ?thesis by simp
    next
      assume "ws' = ws\<lparr>grid := (grid ws)((k, 4) := caption)\<rparr>"
      with True have "0 < length (r # rest) \<and> is_slot frepr post_id ((r # rest) ! 0) \<and>
        (\<forall>j<0. \<not> is_slot frepr post_id ((r # rest) ! j)) \<and>
        ws' = ws\<lparr>grid := (grid ws)((k + 0, 4) := caption)\<rparr>" by simp
      then show ?thesis by blast
    qed
  next
    case False
    then have "caption_loop frepr post_id caption k (r # rest) ws = (e, ws') \<Longrightarrow>
        ws' = ws \<or> caption_loop frepr post_id caption (Suc k) rest ws = (e, ws')"
      by (auto simp: is_slot_def row_item_def split: option.splits if_splits)
    with Cons.prems have "ws' = ws \<or> caption_loop frepr post_id caption (Suc k) rest ws = (e, ws')"
      by blast
    then show ?thesis
    proof
      assume "ws' = ws" then show ?thesis by simp
    next
      assume "caption_loop frepr post_id caption (Suc k) rest ws = (e, ws')"
      from Cons.IH [OF this] show ?thesis
      proof
        assume "ws' = ws" then show ?thesis by simp
      next
        assume "\<exists>i<length rest. is_slot frepr post_id (rest ! i) \<and>
          (\<forall>j<i. \<not> is_slot frepr post_id (rest ! j)) \<and>
          ws' = ws\<lparr>grid := (grid ws)((Suc k + i, 4) := caption)\<rparr>"
        then obtain i where i: "i < length rest" "is_slot frepr post_id (rest ! i)"
          "\<forall>j<i. \<not> is_slot frepr post_id (rest ! j)"
          "ws' = ws\<lparr>grid := (grid ws)((Suc k + i, 4) := caption)\<rparr>" by blast
        have "\<forall>j<Suc i. \<not> is_slot frepr post_id ((r # rest) ! j)"
          using False i(3) by (auto simp: less_Suc_eq_0_disj)
        with i have "Suc i < length (r # rest) \<and> is_slot frepr post_id ((r # rest) ! Suc i) \<and>
          (\<forall>j<Suc i. \<not> is_slot frepr post_id ((r # rest) ! j)) \<and>
          ws' = ws\<lparr>grid := (grid ws)((k + Suc i, 4) := caption)\<rparr>" by simp
        then show ?thesis by blast
      qed
    qed
  qed
qed

lemma caption_loop_writes:
  "i < length rows \<Longrightarrow> is_slot frepr post_id (rows ! i) \<Longrightarrow>
   \<forall>j<i. \<not> is_slot frepr post_id (rows ! j) \<and> has_columns (rows ! j) \<Longrightarrow>
   update_answer ws = None \<Longrightarrow>
   caption_loop frepr post_id caption k rows ws =
     (None, ws\<lparr>grid := (grid ws)((k + i, 4) := caption)\<rparr>)"
proof (induction rows arbitrary: k i)
  case Nil
  then show ?case by simp
next
  case (Cons r rest)
  show ?case
  proof (cases i)
    case 0
    with Cons.prems show ?thesis
      by (auto simp: is_slot_def row_item_def update_cell_def fun_upd_def split: option.splits)
  next
    case (Suc i')
    with Cons.prems have r: "\<not> is_slot frepr post_id r" "has_columns r" by auto
    have rest: "i' < length rest" "is_slot frepr post_id (rest ! i')"
      "\<forall>j<i'. \<not> is_slot frepr post_id (rest ! j) \<and> has_columns (rest ! j)"
      using Cons.prems Suc by auto
    have e: "Suc k + i' = k + i" using Suc by simp
    have "caption_loop frepr post_id caption k (r # rest) ws =
            caption_loop frepr post_id caption (Suc k) rest ws"
      using r by (auto simp: is_slot_def has_columns_def row_item_def split: option.splits)
    also have "\<dots> = (None, ws\<lparr>grid := (grid ws)((Suc k + i', 4) := caption)\<rparr>)"
      using rest Cons.prems(4) by (intro Cons.IH)
    finally show ?thesis unfolding e .
  qed
qed


text \<open>
  C10, as the code has it. One call of \<open>process_caption_file\<close> leaves the worksheet as
  it is or changes one cell only: the cell in column 4 of the first row (sheet row
  \<open>i + 2\<close>) whose post id is the id of the file name and whose caption is false in
  Python's sense (the empty text, or the number 0), which receives the stripped text of
  the file. Hence all cells but one are unchanged, and no cell of a row whose caption is
  true in that sense changes. When the service answers, the columns exist and there is
  such a row, the cell is written.
\<close>

theorem process_caption_file_frame:
  assumes "process_caption_file frepr file_path content ws = ws'"
  shows "(ws' = ws \<or>
          (\<exists>post_id rows i.
              get_post_id_from_filename (basename file_path) = Some post_id \<and>
              records_answer ws = Inr rows \<and> i < length rows \<and>
              is_slot frepr post_id (rows ! i) \<and>
              (\<forall>j<i. \<not> is_slot frepr post_id (rows ! j)) \<and>
              ws' = ws\<lparr>grid := (grid ws)((i + 2, 4) := py_strip content)\<rparr>)) \<and>
         (\<exists>cell. \<forall>c. c \<noteq> cell \<longrightarrow> grid ws' c = grid ws c) \<and>
         (\<forall>rows j cap col.
              records_answer ws = Inr rows \<and> j < length rows \<and>
              map_of (rows ! j) ''Caption'' = Some cap \<and> py_truthy cap \<longrightarrow>
              grid ws' (j + 2, col) = grid ws (j + 2, col)) \<and>
         (get_post_id_from_filename (basename file_path) = Some pid \<and>
          records_answer ws = Inr rs \<and> update_answer ws = None \<and> k < length rs \<and>
          is_slot frepr pid (rs ! k) \<and>
          (\<forall>j<k. \<not> is_slot frepr pid (rs ! j) \<and> has_columns (rs ! j)) \<longrightarrow>
            ws' = ws\<lparr>grid := (grid ws)((k + 2, 4) := py_strip content)\<rparr>)"
proof -
  have main: "ws' = ws \<or>
          (\<exists>post_id rows i.
              get_post_id_from_filename (basename file_path) = Some post_id \<and>
              records_answer ws = Inr rows \<and> i < length rows \<and>
              is_slot frepr post_id (rows ! i) \<and>
              (\<forall>j<i. \<not> is_slot frepr post_id (rows ! j)) \<and>
              ws' = ws\<lparr>grid := (grid ws)((i + 2, 4) := py_strip content)\<rparr>)"
  proof (cases "get_post_id_from_filename (basename file_path)")
    case None
    with assms show ?thesis by (simp add: process_caption_file_def)
  next
    case (Some post_id)
    show ?thesis
    proof (cases "records_answer ws")
      case (Inl e)
      with Some assms show ?thesis by (simp add: process_caption_file_def)
    next
      case (Inr rows)
      obtain e w where l: "caption_loop frepr post_id (py_strip content) 2 rows ws = (e, w)"
        by (cases "caption_loop frepr post_id (py_strip content) 2 rows ws")
      with Some Inr assms have w: "w = ws'" by (simp add: process_caption_file_def)
      from caption_loop_frame [OF l] show ?thesis
        unfolding w using Some Inr by (auto simp: add.commute)
    qed
  qed
  have one: "\<exists>cell. \<forall>c. c \<noteq> cell \<longrightarrow> grid ws' c = grid ws c"
    using main by auto
  have kept: "grid ws' (j + 2, col) = grid ws (j + 2, col)"
    if "records_answer ws = Inr rows" "j < length rows"
       "map_of (rows ! j) ''Caption'' = Some cap" "py_truthy cap" for rows j cap col
    using main
  proof
    assume "ws' = ws" then show ?thesis by simp
  next
    assume "\<exists>post_id rows i.
              get_post_id_from_filename (basename file_path) = Some post_id \<and>
              records_answer ws = Inr rows \<and> i < length rows \<and>
              is_slot frepr post_id (rows ! i) \<and>
              (\<forall>j<i. \<not> is_slot frepr post_id (rows ! j)) \<and>
              ws' = ws\<lparr>grid := (grid ws)((i + 2, 4) := py_strip content)\<rparr>"
    then obtain post_id rows' i where r: "records_answer ws = Inr rows'"
      and i': "is_slot frepr post_id (rows' ! i)"
        "ws' = ws\<lparr>grid := (grid ws)((i + 2, 4) := py_strip content)\<rparr>"
      by blast
    from r that(1) have "rows' = rows" by simp
    with i' have i: "is_slot frepr post_id (rows ! i)"
      "ws' = ws\<lparr>grid := (grid ws)((i + 2, 4) := py_strip content)\<rparr>"
      by simp_all
    have "i \<noteq> j" using i(1) that(3,4) by (auto simp: is_slot_def split: option.splits)
    then show ?thesis using i(2) by simp
  qed
  have written: "ws' = ws\<lparr>grid := (grid ws)((k + 2, 4) := py_strip content)\<rparr>"
    if "get_post_id_from_filename (basename file_path) = Some pid"
       "records_answer ws = Inr rs" "update_answer ws = None" "k < length rs"
       "is_slot frepr pid (rs ! k)"
       "\<forall>j<k. \<not> is_slot frepr pid (rs ! j) \<and> has_columns (rs ! j)"
  proof -
    have "caption_loop frepr pid (py_strip content) 2 rs ws =
            (None, ws\<lparr>grid := (grid ws)((2 + k, 4) := py_strip content)\<rparr>)"
      using that(4,5,6,3) by (rule caption_loop_writes)
    then have "process_caption_file frepr file_path content ws =
                 ws\<lparr>grid := (grid ws)((2 + k, 4) := py_strip content)\<rparr>"
      using that(1,2) by (simp add: process_caption_file_def)
    then show ?thesis using assms by (simp add: add.commute)
  qed
  show ?thesis using main one kept written by blast
qed


lemma example_caption_post_id:
  "get_post_id_from_filename (basename example_caption_file) = Some ''4821''"
  by code_simp

lemma str_int_4821: "str_int 4821 = ''4821''"
  by code_simp

theorem process_caption_file_witness:
  "get_post_id_from_filename (basename example_caption_file) = Some ''4821'' \<and>
   process_caption_file (\<lambda>r. ''0.5'') example_caption_file ''  new caption  ''
       example_caption_sheet =
     example_caption_sheet\<lparr>grid := (grid example_caption_sheet)((3, 4) := ''new caption'')\<rparr>"
proof -
  let ?rs = "[[(''Filename'', AStr ''a.jpg''), (''Post ID'', AInt 4821), (''Post date'', AStr ''d''),
              (''Caption'', AStr ''first caption'')],
             [(''Filename'', AStr ''b.jpg''), (''Post ID'', AInt 4821), (''Post date'', AStr ''d''),
              (''Caption'', AStr [])],
             [(''Filename'', AStr ''c.jpg''), (''Post ID'', AInt 4821), (''Post date'', AStr ''d''),
              (''Caption'', AStr [])]]"
  have h: "get_post_id_from_filename (basename example_caption_file) = Some ''4821'' \<and>
      records_answer example_caption_sheet = Inr ?rs \<and>
      update_answer example_caption_sheet = None \<and> 1 < length ?rs \<and>
      is_slot (\<lambda>r. ''0.5'') ''4821'' (?rs ! 1) \<and>
      (\<forall>j<1. \<not> is_slot (\<lambda>r. ''0.5'') ''4821'' (?rs ! j) \<and> has_columns (?rs ! j))"
    by (simp add: example_caption_post_id example_caption_sheet_def is_slot_def has_columns_def
          str_int_4821)
  have "process_caption_file (\<lambda>r. ''0.5'') example_caption_file ''  new caption  ''
       example_caption_sheet =
     example_caption_sheet\<lparr>grid := (grid example_caption_sheet)((1 + 2, 4) := py_strip ''  new caption  '')\<rparr>"
    using h
    by (rule process_caption_file_frame [OF refl, THEN conjunct2, THEN conjunct2, THEN conjunct2, THEN mp])
  moreover have "py_strip ''  new caption  '' = ''new caption''"
    by (simp add: py_strip_def is_space_def)
  moreover have "(1::nat) + 2 = 3" by simp
  ultimately show ?thesis using example_caption_post_id by (simp only: simp_thms)
qed

text \<open>
  The claim as stated fails for a caption that is not empty and reads as the number 0:
  the cell holds \<open>0\<close> before the call and the text of the file after it.
\<close>

theorem zero_caption_counterexample:
  "grid zero_caption_sheet (2, 4) = ''0'' \<and>
   grid (process_caption_file example_float_repr example_caption_file ''new caption''
           zero_caption_sheet) (2, 4) = ''new caption''"
  by (simp add: zero_caption_sheet_def process_caption_file_def example_caption_post_id
        row_item_def update_cell_def str_int_4821 py_strip_def is_space_def)

subsection \<open>Batched updates of the classification scripts\<close>

lemma classify_loop_paced:
  "pending_ok (batch_size j) us \<Longrightarrow> paced (batch_size j) (fst (classify_loop j i rows us prev))"
proof (induction rows arbitrary: i us prev)
  case Nil
  then show ?case by (auto simp: pending_ok_def)
next
  case (Cons r rest)
  show ?case
  proof (cases "row_action j prev r")
    case Skip
    then show ?thesis using Cons by simp
  next
    case (Raise e)
    then show ?thesis by simp
  next
    case (Classified label score)
    let ?us = "us @ row_updates j i label score"
    have len: "length ?us = length us + 2" by (simp add: row_updates_def)
    show ?thesis
    proof (cases "batch_size j * 2 \<le> int (length ?us)")
      case True
      have sz: "int (length ?us) = max 2 (2 * batch_size j)"
        using Cons.prems True len unfolding pending_ok_def by (auto elim!: evenE)
      have "pending_ok (batch_size j) []" by (simp add: pending_ok_def)
      then have "paced (batch_size j) (fst (classify_loop j (Suc i) rest [] (Some label)))"
        by (rule Cons.IH)
      then show ?thesis using Classified True sz
        by (simp add: Let_def case_prod_beta)
    next
      case False
      then have "pending_ok (batch_size j) ?us"
        using Cons.prems len by (simp add: pending_ok_def)
      then have "paced (batch_size j) (fst (classify_loop j (Suc i) rest ?us (Some label)))"
        by (rule Cons.IH)
      then show ?thesis using Classified False by (simp add: Let_def)
    qed
  qed
qed

lemma paced_sizes:
  "paced bs evs \<Longrightarrow> BatchUpdate us \<in> set evs \<Longrightarrow>
     us \<noteq> [] \<and> int (length us) \<le> max 2 (2 * bs)"
  by (induction bs evs rule: paced.induct) auto

lemma classify_loop_flushed:
  "\<exists>rest. us @ computed_updates j i rows prev = flushed (fst (classify_loop j i rows us prev)) @ rest"
proof (induction rows arbitrary: i us prev)
  case Nil
  then show ?case by simp
next
  case (Cons r rest)
  show ?case
  proof (cases "row_action j prev r")
    case Skip
    then show ?thesis using Cons by simp
  next
    case (Raise e)
    then show ?thesis by simp
  next
    case (Classified label score)
    let ?us = "us @ row_updates j i label score"
    show ?thesis
    proof (cases "batch_size j * 2 \<le> int (length ?us)")
      case True
      from Cons.IH [of "[]" "Suc i" "Some label"] obtain t where
        "computed_updates j (Suc i) rest (Some label) =
           flushed (fst (classify_loop j (Suc i) rest [] (Some label))) @ t" by auto
      then show ?thesis using Classified True
        by (simp add: Let_def case_prod_beta)
    next
      case False
      from Cons.IH [of ?us "Suc i" "Some label"] show ?thesis using Classified False
        by (simp add: Let_def)
    qed
  qed
qed

lemma classify_loop_complete:
  "snd (classify_loop j i rows us prev) = None \<Longrightarrow>
     flushed (fst (classify_loop j i rows us prev)) = us @ computed_updates j i rows prev"
proof (induction rows arbitrary: i us prev)
  case Nil
  then show ?case by simp
next
  case (Cons r rest)
  show ?case
  proof (cases "row_action j prev r")
    case Skip
    then show ?thesis using Cons by simp
  next
    case (Raise e)
    then show ?thesis using Cons.prems by simp
  next
    case (Classified label score)
    let ?us = "us @ row_updates j i label score"
    show ?thesis
    proof (cases "batch_size j * 2 \<le> int (length ?us)")
      case True
      with Cons.prems Classified
      have "snd (classify_loop j (Suc i) rest [] (Some label)) = None"
        by (simp add: Let_def case_prod_beta)
      from Cons.IH [OF this] show ?thesis using Classified True
        by (simp add: Let_def case_prod_beta)
    next
      case False
      with Cons.prems Classified
      have "snd (classify_loop j (Suc i) rest ?us (Some label)) = None"
        by (simp add: Let_def)
      from Cons.IH [OF this] show ?thesis using Classified False
        by (simp add: Let_def)
    qed
  qed
qed


lemma classify_main_loop:
  assumes "classify_main sc pipeline frepr (Some records) col bsize = (evs, res)"
    and "records \<noteq> []"
  shows "\<exists>hdr. (\<forall>e\<in>set hdr. \<exists>c n. e = UpdateCell 1 c n) \<and>
           ((evs = hdr \<and> res = Some ValueError) \<or>
            (\<exists>l s. evs = hdr @ fst (classify_loop
                        \<lparr>the_script = sc, model_pipeline = pipeline, float_repr = frepr,
                         column = col, batch_size = bsize,
                         label_col_index = l, score_col_index = s\<rparr> 0 records [] None) \<and>
                   res = snd (classify_loop
                        \<lparr>the_script = sc, model_pipeline = pipeline, float_repr = frepr,
                         column = col, batch_size = bsize,
                         label_col_index = l, score_col_index = s\<rparr> 0 records [] None)))"
proof -
  obtain ev1 h1 where a1: "add_header (probe_label sc) (label_name sc) (map fst (hd records)) = (ev1, h1)"
    by (cases "add_header (probe_label sc) (label_name sc) (map fst (hd records))")
  obtain ev2 h2 where a2: "add_header (probe_score sc) (score_name sc) h1 = (ev2, h2)"
    by (cases "add_header (probe_score sc) (score_name sc) h1")
  have hdr: "\<forall>e\<in>set (ev1 @ ev2). \<exists>c n. e = UpdateCell 1 c n"
    using a1 a2 by (auto simp: add_header_def split: if_splits)
  show ?thesis
    using assms hdr unfolding classify_main_def
    by (intro exI [of _ "ev1 @ ev2"])
       (auto simp: a1 a2 case_prod_beta split: option.splits)
qed

text \<open>
  C8, as the code has it. For every script, model and batch size, the calls of the loop
  have the shape \<open>paced\<close>: the pending list is sent in one \<open>batch_update\<close> as
  soon as it holds \<open>2 * batch_size\<close> updates (2 updates when the batch size is below
  1), emptied, and a sleep of 2.5 seconds follows; what is left after the loop is sent
  once. So no flush is empty or longer than \<open>max 2 (2 * batch_size)\<close>, the flushes
  are an initial piece of the computed updates, and when the run ends without an
  exception they are the computed updates, each sent once and in order.
\<close>

theorem flush_discipline:
  "paced (batch_size j) (fst (classify_loop j 0 records [] None)) \<and>
   (\<forall>us. BatchUpdate us \<in> set (fst (classify_loop j 0 records [] None)) \<longrightarrow>
      us \<noteq> [] \<and> int (length us) \<le> max 2 (2 * batch_size j)) \<and>
   (\<exists>rest. computed_updates j 0 records None =
      flushed (fst (classify_loop j 0 records [] None)) @ rest) \<and>
   (snd (classify_loop j 0 records [] None) = None \<longrightarrow>
      flushed (fst (classify_loop j 0 records [] None)) = computed_updates j 0 records None)"
proof -
  have p: "paced (batch_size j) (fst (classify_loop j 0 records [] None))"
    by (rule classify_loop_paced) (simp add: pending_ok_def)
  have f: "\<exists>rest. computed_updates j 0 records None =
      flushed (fst (classify_loop j 0 records [] None)) @ rest"
    using classify_loop_flushed [of "[]" j 0 records None] by simp
  have c: "flushed (fst (classify_loop j 0 records [] None)) = computed_updates j 0 records None"
    if "snd (classify_loop j 0 records [] None) = None"
    using classify_loop_complete [OF that] by simp
  show ?thesis using p f c paced_sizes [OF p] by blast
qed

lemma example_run:
  "classify_loop example_job 0 example_records [] None =
     ([BatchUpdate [((2, 2), AStr ''hate''), ((2, 3), AFloat (9 / 10)),
                    ((4, 2), AStr ''hate''), ((4, 3), AFloat (9 / 10))],
       Sleep (5 / 2),
       BatchUpdate [((5, 2), AStr ''hate''), ((5, 3), AFloat (9 / 10))]], None)"
  by (simp add: example_job_def example_records_def row_action_def row_get_def example_float_repr_def
        constant_pipeline_def hate_script_def classify_hate_def hate_step_def row_updates_def
        py_strip_def is_space_def)

theorem flush_discipline_witness:
  "classify_loop example_job 0 example_records [] None =
     ([BatchUpdate [((2, 2), AStr ''hate''), ((2, 3), AFloat (9 / 10)),
                    ((4, 2), AStr ''hate''), ((4, 3), AFloat (9 / 10))],
       Sleep (5 / 2),
       BatchUpdate [((5, 2), AStr ''hate''), ((5, 3), AFloat (9 / 10))]], None) \<and>
   batch_size example_job = 2 \<and>
   paced 2 [BatchUpdate [((2, 2), AStr ''hate''), ((2, 3), AFloat (9 / 10)),
                    ((4, 2), AStr ''hate''), ((4, 3), AFloat (9 / 10))],
       Sleep (5 / 2),
       BatchUpdate [((5, 2), AStr ''hate''), ((5, 3), AFloat (9 / 10))]] \<and>
   computed_updates example_job 0 example_records None =
     [((2, 2), AStr ''hate''), ((2, 3), AFloat (9 / 10)),
      ((4, 2), AStr ''hate''), ((4, 3), AFloat (9 / 10)),
      ((5, 2), AStr ''hate''), ((5, 3), AFloat (9 / 10))]"
  using flush_discipline [of example_job example_records]
  by (simp add: example_run) (simp add: example_job_def)

text \<open>
  The bound \<open>2 * batch_size\<close> as stated fails for \<open>--batch-size 0\<close>: the hate-speech
  script on a sheet with one row flushes two updates.
\<close>

theorem flush_size_counterexample:
  "classify_main hate_script (constant_pipeline [\<lparr>e_label = ''hate'', e_score = 9 / 10\<rparr>])
       example_float_repr (Some [[(''Text'', AStr ''hello'')]]) ''Text'' 0 =
     ([UpdateCell 1 2 ''Hate Label'', UpdateCell 1 3 ''Hate Score'',
       BatchUpdate [((2, 2), AStr ''hate''), ((2, 3), AFloat (9 / 10))], Sleep (5 / 2)], None) \<and>
   \<not> int (length [((2 :: nat, 2 :: nat), AStr ''hate''), ((2, 3), AFloat (9 / 10))]) \<le> 2 * 0"
  by (simp add: classify_main_def add_header_def row_action_def row_get_def example_float_repr_def
        constant_pipeline_def hate_script_def classify_hate_def hate_step_def row_updates_def
        py_strip_def is_space_def)

subsection \<open>Rows that are skipped\<close>

lemma row_action_Skip:
  "row_action j prev r = Skip \<longleftrightarrow>
     no_text j r \<or> (py_truthy (label_of j r) \<and> score_of j r \<noteq> ANone)"
  by (auto simp: row_action_def no_text_def label_of_def score_of_def Let_def
           split: sum.splits prod.splits)

lemma computed_updates_rows:
  "((r, c), v) \<in> set (computed_updates j i rows prev) \<Longrightarrow>
     \<exists>k<length rows. r = i + k + 2 \<and> \<not> no_text j (rows ! k) \<and>
        \<not> (py_truthy (label_of j (rows ! k)) \<and> score_of j (rows ! k) \<noteq> ANone)"
proof (induction rows arbitrary: i prev)
  case Nil
  then show ?case by simp
next
  case (Cons x rest)
  have shift: "\<exists>k<length (x # rest). r = i + k + 2 \<and> \<not> no_text j ((x # rest) ! k) \<and>
        \<not> (py_truthy (label_of j ((x # rest) ! k)) \<and> score_of j ((x # rest) ! k) \<noteq> ANone)"
    if "((r, c), v) \<in> set (computed_updates j (Suc i) rest p)" for p
  proof -
    from Cons.IH [OF that] obtain k where k: "k < length rest" "r = Suc i + k + 2"
      "\<not> no_text j (rest ! k)"
      "\<not> (py_truthy (label_of j (rest ! k)) \<and> score_of j (rest ! k) \<noteq> ANone)" by blast
    then have "Suc k < length (x # rest) \<and> r = i + Suc k + 2 \<and> \<not> no_text j ((x # rest) ! Suc k) \<and>
        \<not> (py_truthy (label_of j ((x # rest) ! Suc k)) \<and> score_of j ((x # rest) ! Suc k) \<noteq> ANone)"
      by simp
    then show ?thesis by blast
  qed
  show ?case
  proof (cases "row_action j prev x")
    case Skip
    with Cons.prems show ?thesis using shift by simp
  next
    case (Raise e)
    with Cons.prems show ?thesis by simp
  next
    case (Classified label score)
    then have ns: "row_action j prev x \<noteq> Skip" by simp
    from Cons.prems Classified have
      "((r, c), v) \<in> set (row_updates j i label score) \<or>
       ((r, c), v) \<in> set (computed_updates j (Suc i) rest (Some label))" by simp
    then show ?thesis
    proof
      assume "((r, c), v) \<in> set (row_updates j i label score)"
      then have "r = i + 0 + 2" by (auto simp: row_updates_def)
      moreover have "\<not> no_text j x \<and> \<not> (py_truthy (label_of j x) \<and> score_of j x \<noteq> ANone)"
        using ns by (simp add: row_action_Skip)
      ultimately have "0 < length (x # rest) \<and> r = i + 0 + 2 \<and> \<not> no_text j ((x # rest) ! 0) \<and>
        \<not> (py_truthy (label_of j ((x # rest) ! 0)) \<and> score_of j ((x # rest) ! 0) \<noteq> ANone)"
        by simp
      then show ?thesis by blast
    next
      assume "((r, c), v) \<in> set (computed_updates j (Suc i) rest (Some label))"
      then show ?thesis by (rule shift)
    qed
  qed
qed

lemma fold_hate_step_label:
  "fst (fold hate_step result acc) = ''hate'' \<or> fst (fold hate_step result acc) = ''nothate'' \<or>
   fst (fold hate_step result acc) = fst acc"
proof (induction result arbitrary: acc)
  case Nil
  then show ?case by simp
next
  case (Cons e es)
  from Cons.IH [of "hate_step e acc"] show ?case
    by (auto simp: hate_step_def split: if_splits)
qed

lemma classify_label_nonempty:
  assumes "sc = sexism_script \<or> sc = hate_script \<or> sc = homophobia_script"
    and "\<forall>p. prev = Some p \<longrightarrow> p \<noteq> []"
    and "classify sc prev result = Inr (l, s)"
  shows "l \<noteq> []"
  using assms(1)
proof (elim disjE)
  assume "sc = sexism_script"
  with assms(3) show ?thesis
    by (auto simp: sexism_script_def classify_sexism_def split: list.splits option.splits if_splits)
next
  assume "sc = hate_script"
  with assms(3) have "l = fst (fold hate_step result (''nothate'', 0))"
    by (auto simp: hate_script_def classify_hate_def)
  then show ?thesis using fold_hate_step_label [of result "(''nothate'', 0)"] by auto
next
  assume "sc = homophobia_script"
  with assms(2,3) show ?thesis
    by (auto simp: homophobia_script_def classify_homophobia_def
             split: list.splits option.splits if_splits)
qed

lemma computed_updates_pairs:
  assumes "the_script j = sexism_script \<or> the_script j = hate_script \<or>
           the_script j = homophobia_script"
  shows "\<forall>p. prev = Some p \<longrightarrow> p \<noteq> [] \<Longrightarrow> label_score_pairs j (computed_updates j i rows prev)"
proof (induction rows arbitrary: i prev)
  case Nil
  then show ?case by simp
next
  case (Cons x rest)
  show ?case
  proof (cases "row_action j prev x")
    case Skip
    then show ?thesis using Cons by simp
  next
    case (Raise e)
    then show ?thesis by simp
  next
    case (Classified label score)
    then obtain result where "classify (the_script j) prev result = Inr (label, score)"
      by (auto simp: row_action_def Let_def split: if_splits sum.splits)
    with assms Cons.prems have l: "label \<noteq> []" by (rule classify_label_nonempty)
    then have "label_score_pairs j (computed_updates j (Suc i) rest (Some label))"
      by (intro Cons.IH) simp
    then show ?thesis using Classified l by (simp add: row_updates_def)
  qed
qed

lemma flushed_subset_computed:
  "set (flushed (fst (classify_loop j 0 records [] None)))
     \<subseteq> set (computed_updates j 0 records None)"
proof -
  from classify_loop_flushed [of "[]" j 0 records None] obtain rest where
    "computed_updates j 0 records None = flushed (fst (classify_loop j 0 records [] None)) @ rest"
    by auto
  then show ?thesis by (metis Un_upper1 set_append)
qed

text \<open>
  C3, as the code has it. In every classification script a row is skipped if and only if
  it has no text after trimming, or its label is true in Python's sense (a non-empty
  text, a number other than 0) and its score is not \<open>None\<close> (the column exists; an
  empty cell counts). A row with a non-empty label text and a number as score is thus
  skipped. No update of a run addresses a row that the test skips. What the three
  scripts write for a classified row is a non-empty label text and a float score, so a
  row labelled by one run is skipped by the next, and its label and score stay as they
  are.
\<close>

theorem labelled_rows_skipped:
  "(row_action j prev r = Skip \<longleftrightarrow>
      no_text j r \<or> (py_truthy (label_of j r) \<and> score_of j r \<noteq> ANone)) \<and>
   (label_of j r = AStr l \<and> l \<noteq> [] \<and> (score_of j r = AFloat x \<or> score_of j r = AInt n) \<longrightarrow>
      row_action j prev r = Skip) \<and>
   (\<forall>k row col v.
       k < length records \<and>
       (no_text j (records ! k) \<or>
        (py_truthy (label_of j (records ! k)) \<and> score_of j (records ! k) \<noteq> ANone)) \<and>
       ((row, col), v) \<in> set (flushed (fst (classify_loop j 0 records [] None))) \<longrightarrow>
       row \<noteq> k + 2) \<and>
   (the_script j = sexism_script \<or> the_script j = hate_script \<or>
    the_script j = homophobia_script \<longrightarrow>
       label_score_pairs j (computed_updates j 0 records None))"
proof (intro conjI impI allI)
  show "row_action j prev r = Skip \<longleftrightarrow>
      no_text j r \<or> (py_truthy (label_of j r) \<and> score_of j r \<noteq> ANone)"
    by (rule row_action_Skip)
  show "row_action j prev r = Skip"
    if "label_of j r = AStr l \<and> l \<noteq> [] \<and> (score_of j r = AFloat x \<or> score_of j r = AInt n)"
    using that by (auto simp: row_action_Skip)
  show "label_score_pairs j (computed_updates j 0 records None)"
    if "the_script j = sexism_script \<or> the_script j = hate_script \<or>
        the_script j = homophobia_script"
    using that by (rule computed_updates_pairs) simp
next
  fix k row col v
  assume a: "k < length records \<and>
       (no_text j (records ! k) \<or>
        (py_truthy (label_of j (records ! k)) \<and> score_of j (records ! k) \<noteq> ANone)) \<and>
       ((row, col), v) \<in> set (flushed (fst (classify_loop j 0 records [] None)))"
  then have "((row, col), v) \<in> set (computed_updates j 0 records None)"
    using flushed_subset_computed by blast
  from computed_updates_rows [OF this] obtain k' where
    k': "row = 0 + k' + 2" "\<not> no_text j (records ! k')"
    "\<not> (py_truthy (label_of j (records ! k')) \<and> score_of j (records ! k') \<noteq> ANone)"
    by blast
  have "k' \<noteq> k" using a k'(2,3) by auto
  then show "row \<noteq> k + 2" using k'(1) by simp
qed

lemma labelled_run:
  "classify_loop example_job 0 labelled_records [] None =
     ([BatchUpdate [((3, 2), AStr ''hate''), ((3, 3), AFloat (9 / 10))]], None)"
  by (simp add: example_job_def labelled_records_def row_action_def row_get_def example_float_repr_def
        constant_pipeline_def hate_script_def classify_hate_def hate_step_def row_updates_def
        py_strip_def is_space_def)

theorem labelled_rows_skipped_witness:
  "label_of example_job (labelled_records ! 0) = AStr ''hate'' \<and>
   score_of example_job (labelled_records ! 0) = AFloat (9 / 10) \<and>
   row_action example_job None (labelled_records ! 0) = Skip \<and>
   no_text example_job blank_row \<and> row_action example_job None blank_row = Skip \<and>
   row_action example_job None (labelled_records ! 1) \<noteq> Skip \<and>
   classify_loop example_job 0 labelled_records [] None =
     ([BatchUpdate [((3, 2), AStr ''hate''), ((3, 3), AFloat (9 / 10))]], None) \<and>
   label_score_pairs example_job (computed_updates example_job 0 labelled_records None)"
proof -
  have h: "label_of example_job (labelled_records ! 0) = AStr ''hate'' \<and>
           score_of example_job (labelled_records ! 0) = AFloat (9 / 10)"
    by (simp add: label_of_def score_of_def example_job_def labelled_records_def
          hate_script_def row_get_def)
  have b: "no_text example_job blank_row"
    by (simp add: no_text_def example_job_def blank_row_def row_get_def py_strip_def)
  have n: "\<not> (no_text example_job (labelled_records ! 1) \<or>
              (py_truthy (label_of example_job (labelled_records ! 1)) \<and>
               score_of example_job (labelled_records ! 1) \<noteq> ANone))"
    by (simp add: no_text_def label_of_def example_job_def labelled_records_def hate_script_def
          row_get_def py_strip_def is_space_def)
  have s: "the_script example_job = sexism_script \<or> the_script example_job = hate_script \<or>
           the_script example_job = homophobia_script"
    by (simp add: example_job_def)
  note t = labelled_rows_skipped [of example_job None "labelled_records ! 0" "''hate''" "9 / 10" 0
             labelled_records]
  note u = labelled_rows_skipped [of example_job None blank_row "''hate''" "9 / 10" 0 labelled_records]
  note w = labelled_rows_skipped [of example_job None "labelled_records ! 1" "''hate''" "9 / 10" 0
             labelled_records]
  have 1: "row_action example_job None (labelled_records ! 0) = Skip"
    using h by (intro t [THEN conjunct2, THEN conjunct1, THEN mp]) simp
  have 2: "row_action example_job None blank_row = Skip"
    using b by (intro u [THEN conjunct1, THEN iffD2] disjI1)
  have 3: "row_action example_job None (labelled_records ! 1) \<noteq> Skip"
  proof
    assume "row_action example_job None (labelled_records ! 1) = Skip"
    then have "no_text example_job (labelled_records ! 1) \<or>
              (py_truthy (label_of example_job (labelled_records ! 1)) \<and>
               score_of example_job (labelled_records ! 1) \<noteq> ANone)"
      by (rule w [THEN conjunct1, THEN iffD1])
    with n show False by (rule notE)
  qed
  have 4: "label_score_pairs example_job (computed_updates example_job 0 labelled_records None)"
    using s by (rule t [THEN conjunct2, THEN conjunct2, THEN conjunct2, THEN mp])
  show ?thesis using h b 1 2 3 4 labelled_run by (intro conjI) (elim conjE, assumption)+
qed

text \<open>
  The claim as stated fails in both directions: a row with no text is skipped with
  neither field populated, and a row with a label and an empty score is skipped as well;
  a row whose label cell holds the number 0 has both fields populated and is classified.
\<close>

theorem skip_condition_counterexample:
  "row_action example_job None blank_row = Skip \<and>
   \<not> (populated (label_of example_job blank_row) \<and> populated (score_of example_job blank_row)) \<and>
   row_action example_job None half_labelled_row = Skip \<and>
   \<not> (populated (label_of example_job half_labelled_row) \<and>
      populated (score_of example_job half_labelled_row)) \<and>
   row_action example_job None zero_label_row = Classified ''hate'' (9 / 10) \<and>
   populated (label_of example_job zero_label_row) \<and>
   populated (score_of example_job zero_label_row)"
  by (simp add: row_action_def label_of_def score_of_def populated_def example_job_def
        blank_row_def half_labelled_row_def zero_label_row_def hate_script_def row_get_def
        py_strip_def is_space_def constant_pipeline_def classify_hate_def hate_step_def)

subsection \<open>The sign of the stored score\<close>

lemma classify_sexism_sign:
  assumes "classify_sexism prev result = Inr (l, s)" and "\<forall>e\<in>set result. 0 \<le> e_score e"
  shows "(l = ''non-sexist'' \<and> s \<le> 0) \<or> (l = ''sexist'' \<and> 0 \<le> s)"
  using assms
  by (auto simp: classify_sexism_def split: list.splits option.splits if_splits)

lemma fold_hate_step_score:
  "\<forall>e\<in>set result. 0 \<le> e_score e \<Longrightarrow> 0 \<le> snd acc \<Longrightarrow>
     0 \<le> snd (fold hate_step result acc)"
proof (induction result arbitrary: acc)
  case Nil
  then show ?case by simp
next
  case (Cons e es)
  have "0 \<le> snd (hate_step e acc)" using Cons.prems by (simp add: hate_step_def)
  with Cons show ?case by simp
qed

lemma classify_hate_unsigned:
  assumes "classify_hate prev result = Inr (l, s)" and "\<forall>e\<in>set result. 0 \<le> e_score e"
  shows "(l = ''hate'' \<or> l = ''nothate'') \<and> 0 \<le> s"
proof -
  from assms(1) have ls: "(l, s) = fold hate_step result (''nothate'', 0)"
    by (simp add: classify_hate_def)
  have "0 \<le> snd (fold hate_step result (''nothate'', 0))"
    using assms(2) by (rule fold_hate_step_score) simp
  moreover have "fst (fold hate_step result (''nothate'', 0)) = ''hate'' \<or>
                 fst (fold hate_step result (''nothate'', 0)) = ''nothate''"
    using fold_hate_step_label [of result "(''nothate'', 0)"] by auto
  ultimately show ?thesis using ls by (metis fst_conv snd_conv)
qed

lemma classify_homophobia_sign:
  assumes "classify_homophobia prev result = Inr (l, s)" and "\<forall>e\<in>set result. 0 \<le> e_score e"
    and "e_label (hd result) = ''LABEL_0'' \<or> e_label (hd result) = ''LABEL_1''"
  shows "(l = ''non-homophobic'' \<and> s \<le> 0) \<or> (l = ''homophobic'' \<and> 0 \<le> s)"
  using assms
  by (auto simp: classify_homophobia_def split: list.splits if_splits)

text \<open>
  C4. With scores of the model that are not negative, the sexism script stores
  \<open>non-sexist\<close> with a score at most 0 and \<open>sexist\<close> with a score at least 0, the
  hate-speech script stores the score as it is, at least 0, and the homophobia script
  keeps the convention for the labels \<open>LABEL_0\<close> and \<open>LABEL_1\<close> (the lemmas above).
  For any other label the homophobia script writes the label of the row before with the
  unsigned score: here the second row is stored as \<open>non-homophobic\<close> with the
  positive score 0.8.
\<close>

theorem homophobia_stale_label:
  "classify_main homophobia_script example_homophobia_pipeline example_float_repr
       (Some [[(''Text'', AStr ''first'')], [(''Text'', AStr ''second'')]]) ''Text'' 30 =
     ([UpdateCell 1 2 ''Homophobia Label'', UpdateCell 1 3 ''Homophobia Score'',
       BatchUpdate [((2, 2), AStr ''non-homophobic''), ((2, 3), AFloat (- (9 / 10))),
                    ((3, 2), AStr ''non-homophobic''), ((3, 3), AFloat (8 / 10))]], None)"
  by (simp add: classify_main_def add_header_def row_action_def row_get_def example_float_repr_def
        example_homophobia_pipeline_def homophobia_script_def classify_homophobia_def
        row_updates_def py_strip_def is_space_def)

subsection \<open>Running an ingestion script twice\<close>

lemma example_name_path: "path_join ''data'' example_comment_name = example_comment_file"
  by (simp add: path_join_def example_comment_name_def example_comment_file_def)

lemma example_name_matches:
  "fnmatch_star ''uwaterlooconfessions-'' ''comments.json'' example_comment_name"
  by (simp add: fnmatch_star_def example_comment_name_def)

lemma int_not_in_texts: "\<not> py_in (AInt n) (map AStr xs)"
  by (induction xs) (simp_all add: py_in_def py_eq_def)

lemma process_example_file:
  assumes "responses sheet = []"
  shows "process_files frepr ''data'' [(example_comment_name, [example_comment])] sheet (map AStr xs) =
           (None, sheet\<lparr>sheet_rows := sheet_rows sheet @ [example_row],
                          sleeps := sleeps sheet @ [1]\<rparr>)"
proof -
  have "process_comment_file frepr example_comment_file [example_comment] sheet (map AStr xs) =
           (None,
            sheet\<lparr>sheet_rows := sheet_rows sheet @ [example_row],
                  responses := tl (responses sheet)\<rparr>,
            map AStr xs @ [AInt 7])"
    using assms
    by (simp add: process_comment_file_def extract_post_id_example_file comment_loop_example
          batch_append_first_try int_not_in_texts del: comment_loop.simps)
  then show ?thesis
    using assms by (simp add: example_name_matches example_name_path)
qed

lemma text_id_second_run:
  "process_directory frepr third_cell_text ''data'' [(example_comment_name, [text_comment])]
       empty_sheet =
     (None, \<lparr>sheet_rows = [example_row], responses = [], sleeps = [1]\<rparr>) \<and>
   process_directory frepr third_cell_text ''data'' [(example_comment_name, [text_comment])]
       \<lparr>sheet_rows = [example_row], responses = [], sleeps = [1]\<rparr> =
     (None, \<lparr>sheet_rows = [example_row], responses = [], sleeps = [1, 1]\<rparr>)"
  by (simp add: process_directory_def get_existing_comment_ids_def empty_sheet_def
        example_name_matches example_name_path process_comment_file_def
        extract_post_id_example_file text_comment_def example_row_def utcfromtimestamp_example
        batch_append_to_sheet_def retry_append_with_backoff_def default_retries_def
        append_rows_def upt_rec py_in_def py_eq_def)

lemma col_values_1_append_row:
  "append_row sheet (f # cells) = (None, sheet') \<Longrightarrow>
     col_values_1 sheet' = col_values_1 sheet @ [f]"
  by (auto simp: append_row_def col_values_1_def split: list.splits api_outcome.splits)

lemma append_row_fails:
  "append_row sheet r = (Some e, sheet') \<Longrightarrow> col_values_1 sheet' = col_values_1 sheet"
  by (auto simp: append_row_def col_values_1_def split: list.splits api_outcome.splits)

lemma image_loop_appended:
  "image_loop engine d existing listing sheet = (res, sheet') \<Longrightarrow>
   \<exists>k\<le>length listing.
      col_values_1 sheet' =
        col_values_1 sheet @
          filter (\<lambda>f. str_endswith ''.jpg'' f \<and> f \<notin> set existing) (take k listing) \<and>
      (res = None \<longrightarrow> k = length listing)"
proof (induction listing arbitrary: sheet)
  case Nil
  then show ?case by simp
next
  case (Cons f rest)
  let ?P = "\<lambda>f. str_endswith ''.jpg'' f \<and> f \<notin> set existing"
  have later: "\<exists>k\<le>length (f # rest).
      col_values_1 sheet' = col_values_1 sheet @ pre @ filter ?P (take k (f # rest)) \<and>
      (res = None \<longrightarrow> k = length (f # rest))"
    if "image_loop engine d existing rest s1 = (res, sheet')"
      and "col_values_1 s1 = col_values_1 sheet @ pre @ filter ?P [f]" for s1 pre
  proof -
    from Cons.IH [OF that(1)] obtain k where k: "k \<le> length rest"
      "col_values_1 sheet' = col_values_1 s1 @ filter ?P (take k rest)"
      "res = None \<longrightarrow> k = length rest" by blast
    have "Suc k \<le> length (f # rest) \<and>
      col_values_1 sheet' = col_values_1 sheet @ pre @ filter ?P (take (Suc k) (f # rest)) \<and>
      (res = None \<longrightarrow> Suc k = length (f # rest))"
      using k that(2) by simp
    then show ?thesis by blast
  qed
  have stop: "\<exists>k\<le>length (f # rest).
      col_values_1 sheet' = col_values_1 sheet @ filter ?P (take k (f # rest)) \<and>
      (res = None \<longrightarrow> k = length (f # rest))"
    if "col_values_1 sheet' = col_values_1 sheet" "res \<noteq> None"
    using that by (intro exI [of _ 0]) simp
  show ?case
  proof (cases "?P f")
    case False
    then have "image_loop engine d existing rest sheet = (res, sheet')"
      using Cons.prems by auto
    from later [OF this, of "[]"] False show ?thesis by simp
  next
    case True
    show ?thesis
    proof (cases "process_filename f")
      case (Inl e)
      with True Cons.prems have "sheet' = sheet" "res \<noteq> None" by auto
      then show ?thesis by (intro stop) simp_all
    next
      case (Inr p)
      obtain post_id post_date where p: "p = (post_id, post_date)" by (cases p)
      let ?r = "[f, post_id, post_date, ocr_image engine (path_join d f)]"
      obtain a s1 where ap: "append_row sheet ?r = (a, s1)" by (cases "append_row sheet ?r")
      show ?thesis
      proof (cases a)
        case (Some e)
        with True Inr p ap Cons.prems have "sheet' = s1" "res \<noteq> None" by auto
        moreover have "col_values_1 s1 = col_values_1 sheet"
          using ap Some append_row_fails by blast
        ultimately show ?thesis by (intro stop) simp_all
      next
        case None
        with True Inr p ap Cons.prems
        have l: "image_loop engine d existing rest s1 = (res, sheet')" by auto
        have c: "col_values_1 s1 = col_values_1 sheet @ [f]"
          using ap None col_values_1_append_row by blast
        from later [OF l, of "[]"] c True show ?thesis by simp
      qed
    qed
  qed
qed

lemma image_loop_all_known:
  "\<forall>f\<in>set listing. str_endswith ''.jpg'' f \<longrightarrow> f \<in> set existing \<Longrightarrow>
     image_loop engine d existing listing sheet = (None, sheet)"
  by (induction listing) auto

lemma ocr_second_run:
  assumes "check_and_append_rows engine d listing sheet = (None, sheet')"
  shows "check_and_append_rows engine' d listing sheet' = (None, sheet')"
proof -
  from assms have l: "image_loop engine d (col_values_1 sheet) listing sheet = (None, sheet')"
    by (simp add: check_and_append_rows_def)
  from image_loop_appended [OF l] have
    c: "col_values_1 sheet' = col_values_1 sheet @
          filter (\<lambda>f. str_endswith ''.jpg'' f \<and> f \<notin> set (col_values_1 sheet)) listing"
    by auto
  have "\<forall>f\<in>set listing. str_endswith ''.jpg'' f \<longrightarrow> f \<in> set (col_values_1 sheet')"
    unfolding c by auto
  then show ?thesis
    unfolding check_and_append_rows_def by (rule image_loop_all_known)
qed

lemma ocr_keys_distinct:
  assumes "check_and_append_rows engine d listing sheet = (res, sheet')"
    and "distinct (col_values_1 sheet)" and "distinct listing"
  shows "distinct (col_values_1 sheet')"
proof -
  from assms(1) have l: "image_loop engine d (col_values_1 sheet) listing sheet = (res, sheet')"
    by (simp add: check_and_append_rows_def)
  from image_loop_appended [OF l] obtain k where
    c: "col_values_1 sheet' = col_values_1 sheet @
          filter (\<lambda>f. str_endswith ''.jpg'' f \<and> f \<notin> set (col_values_1 sheet)) (take k listing)"
    by blast
  show ?thesis unfolding c using assms(2,3) by auto
qed

lemma comment_loop_step:
  "comment_loop frepr post_id (comment # rest) new ids = (res, new', ids') \<Longrightarrow>
   (new' = new \<and> ids' = ids) \<or>
   comment_loop frepr post_id rest new ids = (res, new', ids') \<or>
   (\<exists>cid a b more. \<not> py_in cid ids \<and>
      comment_loop frepr post_id rest
        (new @ [a # b # Atom (AStr (CHR 0x27 # py_str frepr cid)) # more]) (ids @ [cid]) =
      (res, new', ids'))"
  by (auto split: sum.splits pyval.splits if_splits)

lemma comment_loop_new_ids:
  "comment_loop frepr post_id comments new ids = (res, new', ids') \<Longrightarrow>
   \<exists>added cids. new' = new @ added \<and> ids' = ids @ cids \<and>
      map (\<lambda>r. r ! 2) added = map (\<lambda>c. Atom (AStr (CHR 0x27 # py_str frepr c))) cids \<and>
      fresh_ids ids cids"
proof (induction comments arbitrary: new ids)
  case Nil
  then have "new' = new @ [] \<and> ids' = ids @ [] \<and>
      map (\<lambda>r. r ! 2) [] = map (\<lambda>c. Atom (AStr (CHR 0x27 # py_str frepr c))) [] \<and>
      fresh_ids ids []" by simp
  then show ?case by blast
next
  case (Cons comment rest)
  from comment_loop_step [OF Cons.prems] show ?case
  proof (elim disjE exE conjE)
    assume "new' = new" "ids' = ids"
    then have "new' = new @ [] \<and> ids' = ids @ [] \<and>
      map (\<lambda>r. r ! 2) [] = map (\<lambda>c. Atom (AStr (CHR 0x27 # py_str frepr c))) [] \<and>
      fresh_ids ids []" by simp
    then show ?thesis by blast
  next
    assume "comment_loop frepr post_id rest new ids = (res, new', ids')"
    then show ?thesis by (rule Cons.IH)
  next
    fix cid a b more
    assume fresh: "\<not> py_in cid ids"
      and l: "comment_loop frepr post_id rest
        (new @ [a # b # Atom (AStr (CHR 0x27 # py_str frepr cid)) # more]) (ids @ [cid]) =
        (res, new', ids')"
    let ?row = "a # b # Atom (AStr (CHR 0x27 # py_str frepr cid)) # more"
    have row: "?row ! 2 = Atom (AStr (CHR 0x27 # py_str frepr cid))" by simp
    from Cons.IH [OF l] obtain added cids where c: "new' = (new @ [?row]) @ added"
      "ids' = (ids @ [cid]) @ cids"
      "map (\<lambda>r. r ! 2) added = map (\<lambda>c. Atom (AStr (CHR 0x27 # py_str frepr c))) cids"
      "fresh_ids (ids @ [cid]) cids"
      by blast
    have "new' = new @ (?row # added) \<and> ids' = ids @ (cid # cids) \<and>
      map (\<lambda>r. r ! 2) (?row # added) =
        map (\<lambda>c. Atom (AStr (CHR 0x27 # py_str frepr c))) (cid # cids) \<and>
      fresh_ids ids (cid # cids)"
      using c row fresh by simp
    then show ?thesis by blast
  qed
qed

text \<open>
  C1. The checks that hold: the comment loop gives a row only to ids that are not equal
  to a known id or to an earlier id of the run (\<open>comment_loop_new_ids\<close>); a second
  run of the OCR script appends nothing, and the file names of its sheet stay distinct
  (\<open>ocr_second_run\<close>, \<open>ocr_keys_distinct\<close>); a comment whose id is a text is not
  appended again (\<open>text_id_second_run\<close>). For the example comment, whose id is the
  number 7, the claim fails: the ids fetched from the sheet are texts, the number is
  equal to none of them, and the second run over the same directory appends the same
  row again, whatever text the sheet shows for the stored id.
\<close>

theorem second_run_duplicates_row:
  "process_directory frepr shown ''data'' [(example_comment_name, [example_comment])] empty_sheet =
     (None, \<lparr>sheet_rows = [example_row], responses = [], sleeps = [1]\<rparr>) \<and>
   process_directory frepr shown ''data'' [(example_comment_name, [example_comment])]
       \<lparr>sheet_rows = [example_row], responses = [], sleeps = [1]\<rparr> =
     (None, \<lparr>sheet_rows = [example_row, example_row], responses = [], sleeps = [1, 1]\<rparr>)"
proof -
  have 1: "process_directory frepr shown ''data'' [(example_comment_name, [example_comment])] empty_sheet =
     (None, \<lparr>sheet_rows = [example_row], responses = [], sleeps = [1]\<rparr>)"
    unfolding process_directory_def get_existing_comment_ids_def
    using process_example_file [of empty_sheet frepr "[]"]
    by (simp add: empty_sheet_def)
  have 2: "process_directory frepr shown ''data'' [(example_comment_name, [example_comment])]
       \<lparr>sheet_rows = [example_row], responses = [], sleeps = [1]\<rparr> =
     (None, \<lparr>sheet_rows = [example_row, example_row], responses = [], sleeps = [1, 1]\<rparr>)"
    unfolding process_directory_def get_existing_comment_ids_def
    using process_example_file [of "\<lparr>sheet_rows = [example_row], responses = [], sleeps = [1]\<rparr>"
             frepr "[shown example_row]"]
    by simp
  show ?thesis using 1 2 by (rule conjI)
qed

end
